theory Spec2Isabelle
  imports Complex_Main "HOL-Library.List_Lexorder" "HOL-Library.Char_ord"
begin

section \<open>Python strings\<close>

text \<open>
  A Python \<open>str\<close> is modelled as a \<open>string\<close>, one \<open>char\<close> per character, so the model
  covers the strings of code points below 256. Every literal of the validators and of the
  decision engine is ASCII text, the bullet of the exception messages apart (written
  below as its UTF-8 bytes).
\<close>

definition sq :: char where
  \<comment> \<open>the single quote\<close>
  "sq = CHR 0x27"

definition nl :: char where
  \<comment> \<open>the line feed\<close>
  "nl = CHR 0x0A"

fun startswith :: "string \<Rightarrow> string \<Rightarrow> bool" where
  \<comment> \<open>\<open>s.startswith(p)\<close>, arguments in the order \<open>startswith p s\<close>\<close>
  "startswith [] s = True"
| "startswith (p # ps) [] = False"
| "startswith (p # ps) (c # cs) = (p = c \<and> startswith ps cs)"

fun contains :: "string \<Rightarrow> string \<Rightarrow> bool" where
  \<comment> \<open>\<open>p in s\<close> for two strings, arguments in the order \<open>contains p s\<close>\<close>
  "contains p [] = (p = [])"
| "contains p (c # cs) = (startswith p (c # cs) \<or> contains p cs)"

definition lower_char :: "char \<Rightarrow> char" where
  \<comment> \<open>case folding of the ASCII letters\<close>
  "lower_char c =
     (case map_of (zip ''ABCDEFGHIJKLMNOPQRSTUVWXYZ'' ''abcdefghijklmnopqrstuvwxyz'') c of
        Some l \<Rightarrow> l
      | None \<Rightarrow> c)"

definition lower :: "string \<Rightarrow> string" where
  "lower s = map lower_char s"

definition search_ignorecase :: "string \<Rightarrow> string \<Rightarrow> bool" where
  \<comment> \<open>\<open>re.compile(p, re.IGNORECASE).search(s)\<close> is a match, for a pattern \<open>p\<close> of literal
      characters\<close>
  "search_ignorecase p s = contains (lower p) (lower s)"

definition is_space :: "char \<Rightarrow> bool" where
  \<comment> \<open>the characters \<open>str.strip()\<close> removes: tab to carriage return, the four
      separators, the space, and the next line and no-break space of Latin-1\<close>
  "is_space c =
     (c \<in> set [CHR 0x09, CHR 0x0A, CHR 0x0B, CHR 0x0C, CHR 0x0D, CHR 0x1C, CHR 0x1D,
                CHR 0x1E, CHR 0x1F, CHR 0x20, CHR 0x85, CHR 0xA0])"

definition strip :: "string \<Rightarrow> string" where
  "strip s = rev (dropWhile is_space (rev (dropWhile is_space s)))"

fun join :: "string \<Rightarrow> string list \<Rightarrow> string" where
  \<comment> \<open>\<open>sep.join(xs)\<close>\<close>
  "join sep [] = []"
| "join sep [x] = x"
| "join sep (x # y # ys) = x @ sep @ join sep (y # ys)"

definition digit :: "nat \<Rightarrow> char" where
  "digit d = ''0123456789'' ! d"

fun str_nat :: "nat \<Rightarrow> string" where
  \<comment> \<open>\<open>str(n)\<close> of a non-negative integer: its decimal digits\<close>
  "str_nat n = (if n < 10 then [digit n] else str_nat (n div 10) @ [digit (n mod 10)])"

definition str_int :: "int \<Rightarrow> string" where
  "str_int i = (if i < 0 then CHR ''-'' # str_nat (nat (- i)) else str_nat (nat i))"

section \<open>Cost governor: types\<close>

datatype OnSoftCap = Soft_LOG_ONLY | Soft_DEGRADE_MODEL | Soft_NOTIFY_OPS | Soft_QUEUE_REQUESTS

datatype OnHardCap =
  Hard_HALT_ALL | Hard_HALT_NONCRITICAL | Hard_QUEUE_REQUESTS | Hard_QUEUE_REQUESTS_DEFER
| Hard_NONE

datatype DropPolicy = DROP_OLDEST | DROP_NEWEST | DROP_NONCRITICAL_FIRST

datatype DecisionAction = ALLOW | BLOCK | QUEUE | DEGRADE

fun OnSoftCap_value :: "OnSoftCap \<Rightarrow> string" where
  "OnSoftCap_value Soft_LOG_ONLY = ''log-only''"
| "OnSoftCap_value Soft_DEGRADE_MODEL = ''degrade-model''"
| "OnSoftCap_value Soft_NOTIFY_OPS = ''notify-ops''"
| "OnSoftCap_value Soft_QUEUE_REQUESTS = ''queue-requests''"

fun OnHardCap_value :: "OnHardCap \<Rightarrow> string" where
  "OnHardCap_value Hard_HALT_ALL = ''halt-all''"
| "OnHardCap_value Hard_HALT_NONCRITICAL = ''halt-noncritical''"
| "OnHardCap_value Hard_QUEUE_REQUESTS = ''queue-requests''"
| "OnHardCap_value Hard_QUEUE_REQUESTS_DEFER = ''queue-requests-defer''"
| "OnHardCap_value Hard_NONE = ''none''"

fun DropPolicy_value :: "DropPolicy \<Rightarrow> string" where
  "DropPolicy_value DROP_OLDEST = ''drop-oldest''"
| "DropPolicy_value DROP_NEWEST = ''drop-newest''"
| "DropPolicy_value DROP_NONCRITICAL_FIRST = ''drop-noncritical-first''"

text \<open>
  The engine and the validator only add and compare the amounts of money, and print them
  into messages. The records are therefore parametric in the type \<open>'n\<close> of a Python
  \<open>float\<close>: nothing is assumed of its \<open>+\<close> and \<open><\<close>, so what is proved holds for IEEE
  doubles with their rounding as it does for exact numbers. \<open>fmt\<close> stands for \<open>str\<close> on a
  float wherever a message prints one.
\<close>

record QueuePolicy =
  qp_enabled :: bool
  max_queue_depth :: int
  default_ttl_seconds :: int
  drop_policy :: DropPolicy

record 'n SpendMonitoring =
  sm_enabled :: bool
  alert_emails :: "string list"
  daily_report :: bool
  anomaly_detection :: bool
  alert_threshold_percent :: 'n

record 'n CostGovernor =
  currency :: string
  daily_soft_cap :: 'n
  daily_hard_cap :: "'n option"
  on_soft_cap :: OnSoftCap
  on_hard_cap :: OnHardCap
  model_degrade_ladder :: "string list"
  allowlist_tasks_under_hard_cap :: "string list"
  per_request_cap :: "'n option"
  reset_timezone :: string
  queue_policy :: "QueuePolicy option"
  spend_monitoring :: "'n SpendMonitoring option"

record Decision =
  action :: DecisionAction
  reason :: string
  deferred :: bool
  degraded_model :: "string option"
  log_flag :: bool
  notify :: bool

definition mk_Decision :: "DecisionAction \<Rightarrow> string \<Rightarrow> Decision" where
  \<comment> \<open>\<open>Decision(action=a, reason=r)\<close>, every other field at its default\<close>
  "mk_Decision a r =
     \<lparr>action = a, reason = r, deferred = False, degraded_model = None, log_flag = False,
      notify = False\<rparr>"

section \<open>Cost governor: the decision engine\<close>

definition apply_queue_overflow :: "'n CostGovernor \<Rightarrow> Decision \<Rightarrow> int \<Rightarrow> Decision" where
  "apply_queue_overflow gov decision queue_depth =
     (case queue_policy gov of
        Some qp \<Rightarrow>
          if queue_depth \<ge> max_queue_depth qp then mk_Decision BLOCK ''queue_overflow''
          else decision
      | None \<Rightarrow> decision)"

definition per_request_gate :: "('n::ord) CostGovernor \<Rightarrow> 'n \<Rightarrow> bool" where
  \<comment> \<open>the test of phase 0\<close>
  "per_request_gate gov estimated_cost =
     (case per_request_cap gov of None \<Rightarrow> False | Some c \<Rightarrow> estimated_cost > c)"

definition hard_cap_exceeded :: "('n::ord) CostGovernor \<Rightarrow> 'n \<Rightarrow> bool" where
  \<comment> \<open>the test of phase 1\<close>
  "hard_cap_exceeded gov projected =
     (case daily_hard_cap gov of None \<Rightarrow> False | Some h \<Rightarrow> projected > h)"

definition soft_cap_exceeded :: "('n::ord) CostGovernor \<Rightarrow> 'n \<Rightarrow> bool" where
  \<comment> \<open>the test of phase 2\<close>
  "soft_cap_exceeded gov projected = (projected > daily_soft_cap gov)"

definition hard_cap_dispatch :: "'n CostGovernor \<Rightarrow> string \<Rightarrow> bool \<Rightarrow> int \<Rightarrow> Decision" where
  \<comment> \<open>\<open>match gov.on_hard_cap\<close> of phase 1\<close>
  "hard_cap_dispatch gov task_id is_critical queue_depth =
     (case on_hard_cap gov of
        Hard_HALT_ALL \<Rightarrow> mk_Decision BLOCK ''hard_cap_exceeded: halt-all''
      | Hard_HALT_NONCRITICAL \<Rightarrow>
          if is_critical
          then mk_Decision ALLOW
                 (''hard_cap_exceeded: halt-noncritical, '' @ [sq] @ task_id @ [sq]
                    @ '' is critical'')
          else mk_Decision BLOCK
                 (''hard_cap_exceeded: halt-noncritical, '' @ [sq] @ task_id @ [sq]
                    @ '' not in allowlist'')
      | Hard_QUEUE_REQUESTS \<Rightarrow>
          apply_queue_overflow gov (mk_Decision QUEUE ''hard_cap_exceeded: queue-requests'')
            queue_depth
      | Hard_QUEUE_REQUESTS_DEFER \<Rightarrow>
          apply_queue_overflow gov
            ((mk_Decision QUEUE ''hard_cap_exceeded: queue-requests-defer'')\<lparr>deferred := True\<rparr>)
            queue_depth
      | Hard_NONE \<Rightarrow>
          mk_Decision BLOCK
            ''invariant_violation: on_hard_cap='none' with non-null daily_hard_cap'')"

definition soft_cap_dispatch :: "'n CostGovernor \<Rightarrow> int \<Rightarrow> Decision" where
  \<comment> \<open>\<open>match gov.on_soft_cap\<close> of phase 2\<close>
  "soft_cap_dispatch gov queue_depth =
     (case on_soft_cap gov of
        Soft_LOG_ONLY \<Rightarrow> (mk_Decision ALLOW ''soft_cap_exceeded: log-only'')\<lparr>log_flag := True\<rparr>
      | Soft_DEGRADE_MODEL \<Rightarrow>
          (mk_Decision DEGRADE ''soft_cap_exceeded: degrade-model'')
            \<lparr>degraded_model :=
               (case model_degrade_ladder gov of [] \<Rightarrow> None | m # _ \<Rightarrow> Some m)\<rparr>
      | Soft_NOTIFY_OPS \<Rightarrow> (mk_Decision ALLOW ''soft_cap_exceeded: notify-ops'')\<lparr>notify := True\<rparr>
      | Soft_QUEUE_REQUESTS \<Rightarrow>
          apply_queue_overflow gov (mk_Decision QUEUE ''soft_cap_exceeded: queue-requests'')
            queue_depth)"

definition evaluate ::
  "('n \<Rightarrow> string) \<Rightarrow> ('n::{plus,ord}) CostGovernor \<Rightarrow> 'n \<Rightarrow> 'n \<Rightarrow> string \<Rightarrow> bool \<Rightarrow> int
     \<Rightarrow> Decision" where
  "evaluate fmt gov estimated_cost spent_today task_id is_critical queue_depth =
     (if per_request_gate gov estimated_cost
      then mk_Decision BLOCK
             (''estimated_cost ('' @ fmt estimated_cost @ '') exceeds per_request_cap (''
                @ fmt (the (per_request_cap gov)) @ '')'')
      else
        let projected = spent_today + estimated_cost in
        if hard_cap_exceeded gov projected
        then hard_cap_dispatch gov task_id is_critical queue_depth
        else if soft_cap_exceeded gov projected
        then soft_cap_dispatch gov queue_depth
        else mk_Decision ALLOW ''under_budget'')"

section \<open>Raw documents\<close>

text \<open>
  A parsed JSON document, the \<open>dict[str, Any]\<close> the dict validators take:
  \<open>None\<close>, \<open>bool\<close>, \<open>int\<close>, \<open>float\<close>, \<open>str\<close>, \<open>list\<close> and \<open>dict\<close> with
  string keys, kept in insertion order as an association list. A finite float is the
  rational number it denotes: the validators only compare floats, which Python does on
  the exact values (\<open>nan\<close> and the infinities are left out).
\<close>

datatype json =
  JNull | JBool bool | JInt int | JFloat rat | JStr string | JList "json list"
| JDict "(string \<times> json) list"

datatype exn = InvariantViolation string | TypeError

definition dict_get :: "(string \<times> json) list \<Rightarrow> string \<Rightarrow> json" where
  \<comment> \<open>\<open>d.get(k)\<close>: \<open>None\<close> for a missing key\<close>
  "dict_get d k = (case map_of d k of None \<Rightarrow> JNull | Some v \<Rightarrow> v)"

definition has_key :: "(string \<times> json) list \<Rightarrow> string \<Rightarrow> bool" where
  \<comment> \<open>\<open>k in d\<close>\<close>
  "has_key d k = (map_of d k \<noteq> None)"

definition num_value :: "json \<Rightarrow> rat option" where
  \<comment> \<open>the value of a number; \<open>bool\<close> is a subclass of \<open>int\<close>, \<open>True\<close> is 1\<close>
  "num_value v =
     (case v of JBool b \<Rightarrow> Some (if b then 1 else 0) | JInt i \<Rightarrow> Some (of_int i)
      | JFloat r \<Rightarrow> Some r | _ \<Rightarrow> None)"

definition hashable :: "json \<Rightarrow> bool" where
  \<comment> \<open>\<open>hash(v)\<close> raises \<open>TypeError\<close> on a list and on a dict\<close>
  "hashable v = (case v of JList _ \<Rightarrow> False | JDict _ \<Rightarrow> False | _ \<Rightarrow> True)"

definition in_str_set :: "json \<Rightarrow> string list \<Rightarrow> exn + bool" where
  \<comment> \<open>\<open>v in {s1, ..., sn}\<close> for a set of strings: the value is hashed first\<close>
  "in_str_set v S =
     (if \<not> hashable v then Inl TypeError
      else Inr (case v of JStr s \<Rightarrow> s \<in> set S | _ \<Rightarrow> False))"

definition is_str :: "json \<Rightarrow> bool" where
  \<comment> \<open>\<open>isinstance(v, str)\<close>\<close>
  "is_str v = (case v of JStr _ \<Rightarrow> True | _ \<Rightarrow> False)"

definition str_of :: "json \<Rightarrow> string" where
  \<comment> \<open>the characters of a value known to be a string\<close>
  "str_of v = (case v of JStr s \<Rightarrow> s | _ \<Rightarrow> [])"

definition is_dict :: "json \<Rightarrow> bool" where
  "is_dict v = (case v of JDict _ \<Rightarrow> True | _ \<Rightarrow> False)"

definition non_empty_str :: "json \<Rightarrow> bool" where
  \<comment> \<open>\<open>isinstance(v, str) and v.strip()\<close>\<close>
  "non_empty_str v = (case v of JStr s \<Rightarrow> strip s \<noteq> [] | _ \<Rightarrow> False)"

definition py_str :: "(json \<Rightarrow> string) \<Rightarrow> json \<Rightarrow> string" where
  \<comment> \<open>\<open>str(v)\<close>, as an f-string prints a value; \<open>repr_rest\<close> stands for Python's
      rendering of floats, lists and dicts\<close>
  "py_str repr_rest v =
     (case v of JNull \<Rightarrow> ''None'' | JBool b \<Rightarrow> (if b then ''True'' else ''False'')
      | JInt i \<Rightarrow> str_int i | JStr s \<Rightarrow> s | _ \<Rightarrow> repr_rest v)"

text \<open>Sizes that count the values inside lists and dicts, for the termination proofs.\<close>

definition items_size :: "(string \<times> json) list \<Rightarrow> nat" where
  "items_size kvs = size_list (size_prod (\<lambda>k. 0) size) kvs"

definition list_size :: "json list \<Rightarrow> nat" where
  "list_size xs = size_list size xs"


section \<open>Python comparison of document values\<close>

function py_eq :: "json \<Rightarrow> json \<Rightarrow> bool"
  and py_eq_list :: "json list \<Rightarrow> json list \<Rightarrow> bool"
  and py_eq_items :: "(string \<times> json) list \<Rightarrow> (string \<times> json) list \<Rightarrow> bool"
where
  \<comment> \<open>\<open>a == b\<close>: numbers by value, lists element by element, dicts key by key\<close>
  "py_eq JNull b = (b = JNull)"
| "py_eq (JBool x) b = (num_value b = Some (if x then 1 else 0))"
| "py_eq (JInt i) b = (num_value b = Some (of_int i))"
| "py_eq (JFloat r) b = (num_value b = Some r)"
| "py_eq (JStr s) b = (b = JStr s)"
| "py_eq (JList xs) b = (case b of JList ys \<Rightarrow> py_eq_list xs ys | _ \<Rightarrow> False)"
| "py_eq (JDict d) b =
     (case b of JDict e \<Rightarrow> length d = length e \<and> py_eq_items d e | _ \<Rightarrow> False)"
| "py_eq_list [] ys = (ys = [])"
| "py_eq_list (x # xs) ys =
     (case ys of [] \<Rightarrow> False | y # ys' \<Rightarrow> py_eq x y \<and> py_eq_list xs ys')"
| "py_eq_items [] e = True"
| "py_eq_items ((k, v) # d) e =
     ((case map_of e k of None \<Rightarrow> False | Some w \<Rightarrow> py_eq v w) \<and> py_eq_items d e)"
  by pat_completeness auto
termination
  by (relation "measure (\<lambda>x. case x of Inl (a, b) \<Rightarrow> size a
                            | Inr (Inl (xs, ys)) \<Rightarrow> list_size xs
                            | Inr (Inr (d, e)) \<Rightarrow> items_size d)")
     (auto simp: list_size_def items_size_def)

definition num_gt :: "rat \<Rightarrow> json \<Rightarrow> exn + bool" where
  \<comment> \<open>a number against any value\<close>
  "num_gt x b = (case num_value b of Some y \<Rightarrow> Inr (x > y) | None \<Rightarrow> Inl TypeError)"

function py_gt :: "json \<Rightarrow> json \<Rightarrow> exn + bool"
  and py_gt_list :: "json list \<Rightarrow> json list \<Rightarrow> exn + bool"
where
  \<comment> \<open>\<open>a > b\<close>: numbers by value, strings and lists lexicographically, \<open>TypeError\<close> for
      any other pair\<close>
  "py_gt JNull b = Inl TypeError"
| "py_gt (JBool x) b = num_gt (if x then 1 else 0) b"
| "py_gt (JInt i) b = num_gt (of_int i) b"
| "py_gt (JFloat r) b = num_gt r b"
| "py_gt (JStr s) b = (case b of JStr t \<Rightarrow> Inr (s > t) | _ \<Rightarrow> Inl TypeError)"
| "py_gt (JList xs) b = (case b of JList ys \<Rightarrow> py_gt_list xs ys | _ \<Rightarrow> Inl TypeError)"
| "py_gt (JDict d) b = Inl TypeError"
| "py_gt_list [] ys = Inr False"
| "py_gt_list (x # xs) ys =
     (case ys of [] \<Rightarrow> Inr True
      | y # ys' \<Rightarrow> if py_eq x y then py_gt_list xs ys' else py_gt x y)"
  by pat_completeness auto
termination
  by (relation "measure (\<lambda>x. case x of Inl (a, b) \<Rightarrow> size a
                            | Inr (xs, ys) \<Rightarrow> list_size xs)")
     (auto simp: list_size_def)

section \<open>Exception report\<close>

definition bullet :: string where
  \<comment> \<open>the bullet U+2022 of the messages, in UTF-8\<close>
  "bullet = [CHR 0xE2, CHR 0x80, CHR 0xA2]"

definition bullet_logging :: string where
  \<comment> \<open>the logging validator's source has the bullet mis-decoded into three characters
      (U+00E2, U+20AC, U+00A2), in UTF-8 here\<close>
  "bullet_logging = [CHR 0xC3, CHR 0xA2, CHR 0xE2, CHR 0x82, CHR 0xAC, CHR 0xC2, CHR 0xA2]"

definition report :: "string \<Rightarrow> string \<Rightarrow> string list \<Rightarrow> string" where
  \<comment> \<open>\<open>header + "\n".join(f"  <bullet> {err}" for err in errors)\<close>, the header ending in
      a line feed\<close>
  "report header blt errors =
     header @ [nl] @ join [nl] (map (\<lambda>err. ''  '' @ blt @ '' '' @ err) errors)"

definition raise_if_errors :: "string \<Rightarrow> string \<Rightarrow> string list \<Rightarrow> exn + unit" where
  \<comment> \<open>\<open>if errors: raise InvariantViolation(...)\<close>, the end of every \<open>runtime_invariants\<close>\<close>
  "raise_if_errors header blt errors =
     (if errors \<noteq> [] then Inl (InvariantViolation (report header blt errors)) else Inr ())"

section \<open>Cost governor: secret scan and invariants\<close>

datatype 'n pyobj =
  PNone | PBool bool | PInt int | PFloat 'n | PStr string | PSeq "'n pyobj list"
| PData "(string \<times> 'n pyobj) list" | PEnum string

text \<open>
  \<open>'n pyobj\<close> is the tree of objects \<open>_check_no_secrets\<close> walks: the scalars, \<open>str\<close>,
  tuples and lists (\<open>PSeq\<close>), dataclass instances with their fields in declaration order
  (\<open>PData\<close>), and an enum member whose \<open>value\<close> is a string (\<open>PEnum\<close>). The enums of
  \<open>types.py\<close> derive from \<open>str\<close>, so their members are \<open>PStr\<close> of their value.
\<close>

definition check_str :: "string \<Rightarrow> string list \<Rightarrow> string \<Rightarrow> string list" where
  \<comment> \<open>the branch \<open>isinstance(obj, str)\<close>, the same text in \<open>_check_no_secrets\<close> and in
      \<open>_check_no_secrets_raw\<close>\<close>
  "check_str obj errors path =
     (let errors1 =
            (if search_ignorecase ''sk-'' obj
             then errors @ [''Secret-like 'sk-' pattern found at '' @ path @ '': '' @ [sq]
                              @ take 30 obj @ [sq]]
             else errors)
      in if search_ignorecase ''apikey'' obj \<and> \<not> startswith ''${'' obj
         then errors1 @ [''Bare apiKey literal found at '' @ path @ '': '' @ [sq]
                           @ take 30 obj @ [sq]]
         else errors1)"

definition pyobj_list_size :: "'n pyobj list \<Rightarrow> nat" where
  "pyobj_list_size xs = size_list size xs"

definition pyobj_fields_size :: "(string \<times> 'n pyobj) list \<Rightarrow> nat" where
  "pyobj_fields_size fs = size_list (size_prod (\<lambda>k. 0) size) fs"

function check_no_secrets :: "'n pyobj \<Rightarrow> string list \<Rightarrow> string \<Rightarrow> string list"
  and check_no_secrets_seq :: "'n pyobj list \<Rightarrow> nat \<Rightarrow> string list \<Rightarrow> string \<Rightarrow> string list"
  and check_no_secrets_fields ::
    "(string \<times> 'n pyobj) list \<Rightarrow> string list \<Rightarrow> string \<Rightarrow> string list"
where
  "check_no_secrets (PStr s) errors path = check_str s errors path"
| "check_no_secrets (PSeq xs) errors path = check_no_secrets_seq xs 0 errors path"
| "check_no_secrets (PData fs) errors path = check_no_secrets_fields fs errors path"
| "check_no_secrets PNone errors path = errors"
| "check_no_secrets (PBool b) errors path = errors"
| "check_no_secrets (PInt i) errors path = errors"
| "check_no_secrets (PFloat x) errors path = errors"
| "check_no_secrets (PEnum v) errors path = check_str v errors path"
| "check_no_secrets_seq [] i errors path = errors"
| "check_no_secrets_seq (item # xs) i errors path =
     check_no_secrets_seq xs (Suc i)
       (check_no_secrets item errors (path @ ''['' @ str_nat i @ '']'')) path"
| "check_no_secrets_fields [] errors path = errors"
| "check_no_secrets_fields ((name, val) # fs) errors path =
     check_no_secrets_fields fs
       (check_no_secrets val errors (if path \<noteq> [] then path @ ''.'' @ name else name)) path"
  by pat_completeness auto
termination
  by (relation "measure (\<lambda>x. case x of Inl (v, e, p) \<Rightarrow> size v
                            | Inr (Inl (xs, i, e, p)) \<Rightarrow> pyobj_list_size xs
                            | Inr (Inr (fs, e, p)) \<Rightarrow> pyobj_fields_size fs)")
     (auto simp: pyobj_list_size_def pyobj_fields_size_def)

function check_no_secrets_raw :: "json \<Rightarrow> string list \<Rightarrow> string \<Rightarrow> string list"
  and check_no_secrets_raw_items ::
    "(string \<times> json) list \<Rightarrow> string list \<Rightarrow> string \<Rightarrow> string list"
  and check_no_secrets_raw_list :: "json list \<Rightarrow> nat \<Rightarrow> string list \<Rightarrow> string \<Rightarrow> string list"
where
  "check_no_secrets_raw (JStr s) errors path = check_str s errors path"
| "check_no_secrets_raw (JDict d) errors path = check_no_secrets_raw_items d errors path"
| "check_no_secrets_raw (JList xs) errors path = check_no_secrets_raw_list xs 0 errors path"
| "check_no_secrets_raw JNull errors path = errors"
| "check_no_secrets_raw (JBool b) errors path = errors"
| "check_no_secrets_raw (JInt i) errors path = errors"
| "check_no_secrets_raw (JFloat r) errors path = errors"
| "check_no_secrets_raw_items [] errors path = errors"
| "check_no_secrets_raw_items ((k, v) # d) errors path =
     check_no_secrets_raw_items d
       (check_no_secrets_raw v errors (if path \<noteq> [] then path @ ''.'' @ k else k)) path"
| "check_no_secrets_raw_list [] i errors path = errors"
| "check_no_secrets_raw_list (item # xs) i errors path =
     check_no_secrets_raw_list xs (Suc i)
       (check_no_secrets_raw item errors (path @ ''['' @ str_nat i @ '']'')) path"
  by pat_completeness auto
termination
  by (relation "measure (\<lambda>x. case x of Inl (v, e, p) \<Rightarrow> size v
                            | Inr (Inl (d, e, p)) \<Rightarrow> items_size d
                            | Inr (Inr (xs, i, e, p)) \<Rightarrow> list_size xs)")
     (auto simp: list_size_def items_size_def)

definition opt_float :: "'n option \<Rightarrow> 'n pyobj" where
  "opt_float x = (case x of None \<Rightarrow> PNone | Some v \<Rightarrow> PFloat v)"

definition QueuePolicy_fields :: "QueuePolicy \<Rightarrow> (string \<times> 'n pyobj) list" where
  "QueuePolicy_fields qp =
     [(''enabled'', PBool (qp_enabled qp)), (''max_queue_depth'', PInt (max_queue_depth qp)),
      (''default_ttl_seconds'', PInt (default_ttl_seconds qp)),
      (''drop_policy'', PStr (DropPolicy_value (drop_policy qp)))]"

definition SpendMonitoring_fields :: "'n SpendMonitoring \<Rightarrow> (string \<times> 'n pyobj) list" where
  "SpendMonitoring_fields sm =
     [(''enabled'', PBool (sm_enabled sm)), (''alert_emails'', PSeq (map PStr (alert_emails sm))),
      (''daily_report'', PBool (daily_report sm)),
      (''anomaly_detection'', PBool (anomaly_detection sm)),
      (''alert_threshold_percent'', PFloat (alert_threshold_percent sm))]"

definition CostGovernor_fields :: "'n CostGovernor \<Rightarrow> (string \<times> 'n pyobj) list" where
  \<comment> \<open>\<open>dataclasses.fields(gov)\<close> with the value of each field\<close>
  "CostGovernor_fields gov =
     [(''currency'', PStr (currency gov)),
      (''daily_soft_cap'', PFloat (daily_soft_cap gov)),
      (''daily_hard_cap'', opt_float (daily_hard_cap gov)),
      (''on_soft_cap'', PStr (OnSoftCap_value (on_soft_cap gov))),
      (''on_hard_cap'', PStr (OnHardCap_value (on_hard_cap gov))),
      (''model_degrade_ladder'', PSeq (map PStr (model_degrade_ladder gov))),
      (''allowlist_tasks_under_hard_cap'',
         PSeq (map PStr (allowlist_tasks_under_hard_cap gov))),
      (''per_request_cap'', opt_float (per_request_cap gov)),
      (''reset_timezone'', PStr (reset_timezone gov)),
      (''queue_policy'',
         (case queue_policy gov of None \<Rightarrow> PNone | Some qp \<Rightarrow> PData (QueuePolicy_fields qp))),
      (''spend_monitoring'',
         (case spend_monitoring gov of None \<Rightarrow> PNone
          | Some sm \<Rightarrow> PData (SpendMonitoring_fields sm)))]"

definition cg_header :: string where
  "cg_header = ''CostGovernor invariant violation(s):''"

definition cg_soft_le_hard ::
  "('n \<Rightarrow> string) \<Rightarrow> ('n::ord) CostGovernor \<Rightarrow> string list \<Rightarrow> string list" where
  \<comment> \<open>rule 1\<close>
  "cg_soft_le_hard fmt gov errors =
     (case daily_hard_cap gov of
        Some h \<Rightarrow>
          if daily_soft_cap gov > h
          then errors @ [''daily_soft_cap ('' @ fmt (daily_soft_cap gov)
                           @ '') must be <= daily_hard_cap ('' @ fmt h @ '')'']
          else errors
      | None \<Rightarrow> errors)"

definition cg_null_hard_none :: "'n CostGovernor \<Rightarrow> string list \<Rightarrow> string list" where
  \<comment> \<open>rule 2\<close>
  "cg_null_hard_none gov errors =
     (if daily_hard_cap gov = None \<and> on_hard_cap gov \<noteq> Hard_NONE
      then errors @ [''daily_hard_cap is null so on_hard_cap must be 'none', got '' @ [sq]
                       @ OnHardCap_value (on_hard_cap gov) @ [sq]]
      else errors)"

definition cg_degrade_ladder :: "'n CostGovernor \<Rightarrow> string list \<Rightarrow> string list" where
  \<comment> \<open>rule 3\<close>
  "cg_degrade_ladder gov errors =
     (if on_soft_cap gov = Soft_DEGRADE_MODEL \<and> model_degrade_ladder gov = []
      then errors @ [''on_soft_cap='degrade-model' requires a non-empty model_degrade_ladder'']
      else errors)"

definition cg_halt_allowlist :: "'n CostGovernor \<Rightarrow> string list \<Rightarrow> string list" where
  \<comment> \<open>rule 4\<close>
  "cg_halt_allowlist gov errors =
     (if on_hard_cap gov = Hard_HALT_NONCRITICAL \<and> allowlist_tasks_under_hard_cap gov = []
      then errors @ [''on_hard_cap='halt-noncritical' requires a non-empty ''
                       @ ''allowlist_tasks_under_hard_cap'']
      else errors)"

definition cg_queue_policy :: "'n CostGovernor \<Rightarrow> string list \<Rightarrow> string list" where
  \<comment> \<open>rule 6\<close>
  "cg_queue_policy gov errors =
     (let needs_queue =
            (on_soft_cap gov = Soft_QUEUE_REQUESTS
             \<or> on_hard_cap gov \<in> set [Hard_QUEUE_REQUESTS, Hard_QUEUE_REQUESTS_DEFER])
      in if needs_queue \<and> queue_policy gov = None
         then errors @ [''queue_policy is required when on_soft_cap or on_hard_cap ''
                          @ ''uses a queue-* action'']
         else errors)"

definition cg_errors :: "('n \<Rightarrow> string) \<Rightarrow> ('n::ord) CostGovernor \<Rightarrow> string list" where
  \<comment> \<open>the list \<open>errors\<close> of \<open>runtime_invariants\<close> when its last rule has run; each rule
      of the source's body is a function from the list to the list\<close>
  "cg_errors fmt gov =
     (let errors1 = cg_soft_le_hard fmt gov [];
          errors2 = cg_null_hard_none gov errors1;
          errors3 = cg_degrade_ladder gov errors2;
          errors4 = cg_halt_allowlist gov errors3;
          errors5 = check_no_secrets (PData (CostGovernor_fields gov)) errors4 []
      in cg_queue_policy gov errors5)"

definition cg_runtime_invariants :: "('n \<Rightarrow> string) \<Rightarrow> ('n::ord) CostGovernor \<Rightarrow> exn + unit" where
  \<comment> \<open>\<open>runtime_invariants\<close> of the cost-governor contract\<close>
  "cg_runtime_invariants fmt gov = raise_if_errors cg_header bullet (cg_errors fmt gov)"


section \<open>The dict validators: shared checks\<close>

text \<open>
  \<open>_scan_secrets\<close> has the same text in the health, logging and routing validators.
  \<open>_check_timestamp\<close> takes the field name in the health validator; the logging and
  routing validators have the same body with the name \<open>timestamp\<close> written into each
  message. \<open>fromiso\<close> stands for \<open>datetime.fromisoformat\<close>: \<open>None\<close> when it raises
  \<open>ValueError\<close>, otherwise whether the parsed value has a \<open>tzinfo\<close>.
\<close>

function scan_secrets :: "json \<Rightarrow> string list \<Rightarrow> string \<Rightarrow> string list"
  and scan_secrets_items :: "(string \<times> json) list \<Rightarrow> string list \<Rightarrow> string \<Rightarrow> string list"
  and scan_secrets_list :: "json list \<Rightarrow> nat \<Rightarrow> string list \<Rightarrow> string \<Rightarrow> string list"
where
  "scan_secrets (JStr s) errors path =
     (if contains ''sk-'' s
      then errors @ [''secret-like 'sk-' substring found at '' @ path]
      else errors)"
| "scan_secrets (JDict d) errors path = scan_secrets_items d errors path"
| "scan_secrets (JList xs) errors path = scan_secrets_list xs 0 errors path"
| "scan_secrets JNull errors path = errors"
| "scan_secrets (JBool b) errors path = errors"
| "scan_secrets (JInt i) errors path = errors"
| "scan_secrets (JFloat r) errors path = errors"
| "scan_secrets_items [] errors path = errors"
| "scan_secrets_items ((key, v) # d) errors path =
     (let key_path = path @ ''.'' @ key;
          errors1 = (if contains ''sk-'' key
                     then errors @ [''secret-like 'sk-' substring found in key at ''
                                      @ key_path]
                     else errors);
          errors2 = (if key \<in> set [''apiKey'', ''api_key'', ''API_KEY'']
                        \<and> (\<not> is_str v \<or> \<not> startswith ''${'' (str_of v))
                     then errors1 @ [''literal '' @ key @ '' detected at '' @ key_path
                                       @ ''; use ${ENV_VAR}'']
                     else errors1)
      in scan_secrets_items d (scan_secrets v errors2 key_path) path)"
| "scan_secrets_list [] idx errors path = errors"
| "scan_secrets_list (item # xs) idx errors path =
     scan_secrets_list xs (Suc idx)
       (scan_secrets item errors (path @ ''['' @ str_nat idx @ '']'')) path"
  by pat_completeness auto
termination
  by (relation "measure (\<lambda>x. case x of Inl (v, e, p) \<Rightarrow> size v
                            | Inr (Inl (d, e, p)) \<Rightarrow> items_size d
                            | Inr (Inr (xs, i, e, p)) \<Rightarrow> list_size xs)")
     (auto simp: list_size_def items_size_def)

definition endswith_Z :: "string \<Rightarrow> bool" where
  \<comment> \<open>\<open>value.endswith("Z")\<close>\<close>
  "endswith_Z s = (s \<noteq> [] \<and> last s = CHR ''Z'')"

definition check_timestamp ::
  "(string \<Rightarrow> bool option) \<Rightarrow> json \<Rightarrow> string \<Rightarrow> string list \<Rightarrow> string list" where
  "check_timestamp fromiso val field errors =
     (case val of
        JStr s \<Rightarrow>
          if \<not> contains ''T'' s then errors @ [field @ '' must use RFC3339 date-time format'']
          else
            (let candidate = (if endswith_Z s then butlast s @ ''+00:00'' else s) in
             case fromiso candidate of
               None \<Rightarrow> errors @ [field @ '' is not a valid RFC3339 date-time'']
             | Some has_tzinfo \<Rightarrow>
                 if \<not> has_tzinfo
                 then errors @ [field @ '' must include timezone (Z or +/-HH:MM)'']
                 else errors)
      | _ \<Rightarrow> errors @ [field @ '' must be a string in RFC3339 format''])"

fun check_non_empty_ids ::
  "string list \<Rightarrow> (string \<times> json) list \<Rightarrow> string list \<Rightarrow> string list" where
  \<comment> \<open>\<open>for field in (...)\<close>, the tuple of field names as first argument\<close>
  "check_non_empty_ids [] data errors = errors"
| "check_non_empty_ids (field # rest) data errors =
     check_non_empty_ids rest data
       (if \<not> non_empty_str (dict_get data field)
        then errors @ [field @ '' must be a non-empty string'']
        else errors)"

section \<open>Health validator\<close>

definition check_service_name :: "json \<Rightarrow> string list \<Rightarrow> string list" where
  "check_service_name val errors =
     (if \<not> non_empty_str val then errors @ [''service must be a non-empty string'']
      else errors)"

definition ALLOWED_STATES :: "string list" where
  "ALLOWED_STATES = [''healthy'', ''degraded'', ''unhealthy'', ''unknown'']"

fun check_checks_loop ::
  "(string \<Rightarrow> bool option) \<Rightarrow> json list \<Rightarrow> nat \<Rightarrow> string list \<Rightarrow> string list
     \<Rightarrow> exn + string list" where
  \<comment> \<open>the \<open>for idx, check in enumerate(checks)\<close> of \<open>_check_checks\<close>, with the set
      \<open>seen_names\<close> and the list \<open>errors\<close> as they stand before the element\<close>
  "check_checks_loop fromiso [] idx seen_names errors = Inr errors"
| "check_checks_loop fromiso (check # rest) idx seen_names errors =
     (let path = ''checks['' @ str_nat idx @ '']'' in
      case check of
        JDict c \<Rightarrow>
          (let name = dict_get c ''name'';
               errors1 =
                 (if \<not> non_empty_str name
                  then errors @ [path @ ''.name must be a non-empty string'']
                  else if str_of name \<in> set seen_names
                  then errors @ [''duplicate check name: '' @ str_of name]
                  else errors);
               seen_names1 =
                 (if non_empty_str name \<and> str_of name \<notin> set seen_names
                  then str_of name # seen_names else seen_names)
           in case in_str_set (dict_get c ''probe_type'') [''liveness'', ''readiness'', ''startup'']
              of Inl e \<Rightarrow> Inl e
               | Inr probe_ok \<Rightarrow>
                  (let errors2 =
                         (if \<not> probe_ok
                          then errors1 @ [path @ ''.probe_type must be one of ''
                                            @ ''liveness/readiness/startup'']
                          else errors1)
                   in case in_str_set (dict_get c ''status'') ALLOWED_STATES
                      of Inl e \<Rightarrow> Inl e
                       | Inr status_ok \<Rightarrow>
                          (let errors3 =
                                 (if \<not> status_ok
                                  then errors2 @ [path @ ''.status must be one of ''
                                                    @ ''healthy/degraded/unhealthy/unknown'']
                                  else errors2);
                               errors4 =
                                 check_timestamp fromiso (dict_get c ''timestamp'')
                                   (path @ ''.timestamp'') errors3
                           in check_checks_loop fromiso rest (Suc idx) seen_names1 errors4)))
      | _ \<Rightarrow>
          check_checks_loop fromiso rest (Suc idx) seen_names
            (errors @ [path @ '' must be an object'']))"

definition check_checks ::
  "(string \<Rightarrow> bool option) \<Rightarrow> json \<Rightarrow> string list \<Rightarrow> exn + string list" where
  "check_checks fromiso checks errors =
     (case checks of
        JList cs \<Rightarrow>
          if cs = [] then Inr (errors @ [''checks must be a non-empty list''])
          else check_checks_loop fromiso cs 0 [] errors
      | _ \<Rightarrow> Inr (errors @ [''checks must be a non-empty list'']))"

record counts =
  total_n :: int
  healthy :: int
  degraded :: int
  unhealthy :: int
  unknown :: int

definition has_status :: "string \<Rightarrow> json \<Rightarrow> bool" where
  \<comment> \<open>\<open>isinstance(item, dict) and item.get("status") == s\<close>\<close>
  "has_status s item = (case item of JDict c \<Rightarrow> py_eq (dict_get c ''status'') (JStr s) | _ \<Rightarrow> False)"

definition count_status :: "string \<Rightarrow> json list \<Rightarrow> int" where
  \<comment> \<open>\<open>sum(1 for item in checks if ...)\<close>\<close>
  "count_status s checks = int (length (filter (has_status s) checks))"

definition compute_counts :: "json list \<Rightarrow> counts" where
  \<comment> \<open>the dict \<open>computed\<close>\<close>
  "compute_counts checks =
     \<lparr>total_n = int (length checks), healthy = count_status ''healthy'' checks,
      degraded = count_status ''degraded'' checks,
      unhealthy = count_status ''unhealthy'' checks,
      unknown = count_status ''unknown'' checks\<rparr>"

definition counts_items :: "counts \<Rightarrow> (string \<times> int) list" where
  \<comment> \<open>\<open>computed.items()\<close>, in insertion order\<close>
  "counts_items c =
     [(''total'', total_n c), (''healthy'', healthy c), (''degraded'', degraded c),
      (''unhealthy'', unhealthy c), (''unknown'', unknown c)]"

definition derive_status :: "counts \<Rightarrow> string" where
  "derive_status c =
     (if unhealthy c > 0 then ''unhealthy''
      else if degraded c > 0 then ''degraded''
      else if healthy c = total_n c \<and> total_n c > 0 then ''healthy''
      else ''unknown'')"

fun check_summary_loop ::
  "(json \<Rightarrow> string) \<Rightarrow> (string \<times> int) list \<Rightarrow> (string \<times> json) list \<Rightarrow> string list
     \<Rightarrow> string list" where
  \<comment> \<open>\<open>for key, expected in computed.items()\<close>\<close>
  "check_summary_loop repr_rest [] summary errors = errors"
| "check_summary_loop repr_rest ((key, expected) # rest) summary errors =
     (let actual = dict_get summary key in
      check_summary_loop repr_rest rest summary
        (if \<not> py_eq actual (JInt expected)
         then errors @ [''summary.'' @ key @ '' must equal computed value ''
                          @ str_int expected @ '', got '' @ py_str repr_rest actual]
         else errors))"

definition check_summary_and_status ::
  "(json \<Rightarrow> string) \<Rightarrow> (string \<times> json) list \<Rightarrow> string list \<Rightarrow> string list" where
  "check_summary_and_status repr_rest data errors =
     (case (dict_get data ''checks'', dict_get data ''summary'') of
        (JList checks, JDict summary) \<Rightarrow>
          (let computed = compute_counts checks;
               errors1 = check_summary_loop repr_rest (counts_items computed) summary errors;
               expected_status = derive_status computed;
               actual_status = dict_get data ''status''
           in if \<not> py_eq actual_status (JStr expected_status)
              then errors1 @ [''status must be '' @ [sq] @ expected_status @ [sq]
                                @ '' for current checks/summary, got '' @ [sq]
                                @ py_str repr_rest actual_status @ [sq]]
              else errors1)
      | _ \<Rightarrow> errors)"

definition health_header :: string where
  "health_header = ''HealthStatus invariant violation(s):''"

definition health_runtime_invariants ::
  "(string \<Rightarrow> bool option) \<Rightarrow> (json \<Rightarrow> string) \<Rightarrow> (string \<times> json) list \<Rightarrow> exn + unit" where
  \<comment> \<open>\<open>runtime_invariants\<close> of the health contract\<close>
  "health_runtime_invariants fromiso repr_rest data =
     (let errors1 = check_timestamp fromiso (dict_get data ''timestamp'') ''timestamp'' [];
          errors2 = check_service_name (dict_get data ''service'') errors1
      in case check_checks fromiso (dict_get data ''checks'') errors2 of
           Inl e \<Rightarrow> Inl e
         | Inr errors3 \<Rightarrow>
             (let errors4 = check_summary_and_status repr_rest data errors3;
                  errors5 = scan_secrets (JDict data) errors4 ''$''
              in raise_if_errors health_header bullet errors5))"


section \<open>Logging validator\<close>

definition check_tokens :: "(string \<times> json) list \<Rightarrow> string list \<Rightarrow> string list" where
  "check_tokens event_dict errors =
     (let has_tokens_in = has_key event_dict ''tokens_in'';
          has_tokens_out = has_key event_dict ''tokens_out''
      in if has_tokens_in \<noteq> has_tokens_out
         then errors @ [''tokens_in and tokens_out must both be present when either is ''
                          @ ''provided'']
         else errors)"

definition check_decision :: "json \<Rightarrow> string list \<Rightarrow> string list" where
  "check_decision decision errors =
     (case decision of
        JDict d \<Rightarrow>
          (let act = dict_get d ''action'';
               errors1 =
                 (if py_eq act (JStr ''DEGRADE'') \<and> \<not> non_empty_str (dict_get d ''degraded_model'')
                  then errors @ [''decision.degraded_model is required when ''
                                   @ ''decision.action == DEGRADE'']
                  else errors)
           in if py_eq act (JStr ''QUEUE'') \<and> dict_get d ''deferred'' = JBool True
                 \<and> (let reason = dict_get d ''reason''
                      in \<not> is_str reason \<or> \<not> contains ''defer'' (lower (str_of reason)))
              then errors1 @ [''decision.reason must include 'defer' when ''
                                @ ''decision.action == QUEUE and deferred is true'']
              else errors1)
      | _ \<Rightarrow> errors)"

definition check_decision_link :: "(string \<times> json) list \<Rightarrow> string list \<Rightarrow> string list" where
  "check_decision_link event_dict errors =
     (if \<not> py_eq (dict_get event_dict ''event_type'') (JStr ''decision'') then errors
      else
        (let has_routing_decision_id = non_empty_str (dict_get event_dict ''routing_decision_id'');
             meta = dict_get event_dict ''meta'';
             has_embedded_routing_decision =
               (case meta of JDict m \<Rightarrow> is_dict (dict_get m ''routing_decision'') | _ \<Rightarrow> False);
             errors1 =
               (if \<not> (has_routing_decision_id \<or> has_embedded_routing_decision)
                then errors @ [''event_type='decision' requires routing_decision_id or ''
                                 @ ''meta.routing_decision'']
                else errors)
         in if has_key event_dict ''routing_decision_id'' \<and> \<not> has_routing_decision_id
            then errors1 @ [''routing_decision_id must be a non-empty string when provided'']
            else errors1))"

definition logging_header :: string where
  "logging_header = ''LogEvent invariant violation(s):''"

definition logging_errors :: "(string \<Rightarrow> bool option) \<Rightarrow> (string \<times> json) list \<Rightarrow> string list" where
  \<comment> \<open>the list \<open>errors\<close> when the last check has run\<close>
  "logging_errors fromiso event_dict =
     (let errors1 =
            check_timestamp fromiso (dict_get event_dict ''timestamp'') ''timestamp'' [];
          errors2 = check_non_empty_ids [''event_id'', ''task_id'', ''trace_id''] event_dict errors1;
          errors3 = check_tokens event_dict errors2;
          errors4 = check_decision_link event_dict errors3;
          errors5 = check_decision (dict_get event_dict ''decision'') errors4
      in scan_secrets (JDict event_dict) errors5 ''$'')"

definition logging_runtime_invariants ::
  "(string \<Rightarrow> bool option) \<Rightarrow> (string \<times> json) list \<Rightarrow> exn + unit" where
  \<comment> \<open>\<open>runtime_invariants\<close> of the logging contract\<close>
  "logging_runtime_invariants fromiso event_dict =
     raise_if_errors logging_header bullet_logging (logging_errors fromiso event_dict)"

section \<open>Routing validator\<close>

definition check_selected_matches_fallback ::
  "(string \<times> json) list \<Rightarrow> string list \<Rightarrow> string list" where
  "check_selected_matches_fallback data errors =
     (case dict_get data ''fallback_chain'' of
        JList (first # others) \<Rightarrow>
          (case first of
             JDict f \<Rightarrow>
               if \<not> py_eq (dict_get f ''provider'') (dict_get data ''selected_provider'')
                  \<or> \<not> py_eq (dict_get f ''model'') (dict_get data ''selected_model'')
               then errors @ [''selected_provider/selected_model must match ''
                                @ ''fallback_chain[0].provider/model'']
               else errors
           | _ \<Rightarrow> errors @ [''fallback_chain[0] must be an object''])
      | _ \<Rightarrow> errors @ [''fallback_chain must be a non-empty list''])"

definition check_reason_codes :: "json \<Rightarrow> string list \<Rightarrow> string list" where
  "check_reason_codes reason_codes errors =
     (case reason_codes of
        JList codes \<Rightarrow>
          if codes = [] then errors @ [''reason_codes must be a non-empty list'']
          else if list_ex (\<lambda>code. \<not> non_empty_str code) codes
          then errors @ [''reason_codes entries must be non-empty strings'']
          else
            \<comment> \<open>every entry is a \<open>str\<close> from here on\<close>
            (let strs = map str_of codes;
                 errors1 =
                   (if length strs \<noteq> length (remdups strs)
                    then errors @ [''reason_codes must not contain duplicates'']
                    else errors)
             in if strs \<noteq> sort strs
                then errors1 @ [''reason_codes must be sorted for deterministic ordering'']
                else errors1)
      | _ \<Rightarrow> errors @ [''reason_codes must be a non-empty list''])"

definition check_cost_currency_pair :: "(string \<times> json) list \<Rightarrow> string list \<Rightarrow> string list" where
  "check_cost_currency_pair data errors =
     (if has_key data ''cost_estimate'' \<and> \<not> has_key data ''currency''
      then errors @ [''currency is required when cost_estimate is present'']
      else errors)"

definition check_constraint_caps :: "json \<Rightarrow> string list \<Rightarrow> exn + string list" where
  "check_constraint_caps constraints errors =
     (case constraints of
        JDict c \<Rightarrow>
          (let soft = dict_get c ''daily_soft_cap''; hard = dict_get c ''daily_hard_cap'' in
           if soft \<noteq> JNull \<and> hard \<noteq> JNull
           then (case py_gt soft hard of
                   Inl e \<Rightarrow> Inl e
                 | Inr gt \<Rightarrow>
                     Inr (if gt
                          then errors @ [''constraints.daily_soft_cap must be <= ''
                                           @ ''constraints.daily_hard_cap'']
                          else errors))
           else Inr errors)
      | _ \<Rightarrow> Inr errors)"

definition routing_header :: string where
  "routing_header = ''RoutingDecision invariant violation(s):''"

definition routing_runtime_invariants ::
  "(string \<Rightarrow> bool option) \<Rightarrow> (string \<times> json) list \<Rightarrow> exn + unit" where
  \<comment> \<open>\<open>runtime_invariants\<close> of the routing contract\<close>
  "routing_runtime_invariants fromiso data =
     (let errors1 = check_timestamp fromiso (dict_get data ''timestamp'') ''timestamp'' [];
          errors2 = check_non_empty_ids [''decision_id'', ''task_id'', ''trace_id''] data errors1;
          errors3 = check_selected_matches_fallback data errors2;
          errors4 = check_reason_codes (dict_get data ''reason_codes'') errors3;
          errors5 = check_cost_currency_pair data errors4
      in case check_constraint_caps (dict_get data ''constraints'') errors5 of
           Inl e \<Rightarrow> Inl e
         | Inr errors6 \<Rightarrow>
             raise_if_errors routing_header bullet (scan_secrets (JDict data) errors6 ''$''))"


section \<open>Definitions used to state the properties\<close>

definition reaches_queue_dispatch :: "('n::{plus,ord}) CostGovernor \<Rightarrow> 'n \<Rightarrow> 'n \<Rightarrow> bool" where
  \<comment> \<open>the inputs on which \<open>evaluate\<close> builds a QUEUE decision: phase 0 lets the request
      through, and the phase that resolves has a queue policy\<close>
  "reaches_queue_dispatch gov estimated_cost spent_today =
     (\<not> per_request_gate gov estimated_cost \<and>
      (if hard_cap_exceeded gov (spent_today + estimated_cost)
       then on_hard_cap gov = Hard_QUEUE_REQUESTS \<or> on_hard_cap gov = Hard_QUEUE_REQUESTS_DEFER
       else soft_cap_exceeded gov (spent_today + estimated_cost) \<and>
            on_soft_cap gov = Soft_QUEUE_REQUESTS))"

definition queue_outcome :: "('n::{plus,ord}) CostGovernor \<Rightarrow> 'n \<Rightarrow> 'n \<Rightarrow> Decision" where
  \<comment> \<open>the QUEUE decision built on such an input, before the overflow check\<close>
  "queue_outcome gov estimated_cost spent_today =
     (if hard_cap_exceeded gov (spent_today + estimated_cost)
      then (if on_hard_cap gov = Hard_QUEUE_REQUESTS
            then mk_Decision QUEUE ''hard_cap_exceeded: queue-requests''
            else (mk_Decision QUEUE ''hard_cap_exceeded: queue-requests-defer'')
                   \<lparr>deferred := True\<rparr>)
      else mk_Decision QUEUE ''soft_cap_exceeded: queue-requests'')"

definition gov_test :: "int CostGovernor" where
  \<comment> \<open>the configuration of \<open>test_decision_logic.py\<close>, amounts in whole units\<close>
  "gov_test =
     \<lparr>currency = ''USD'', daily_soft_cap = 10, daily_hard_cap = Some 20,
      on_soft_cap = Soft_LOG_ONLY, on_hard_cap = Hard_HALT_ALL, model_degrade_ladder = [],
      allowlist_tasks_under_hard_cap = [], per_request_cap = None, reset_timezone = ''UTC'',
      queue_policy = None, spend_monitoring = None\<rparr>"

definition queue_policy_of :: "int \<Rightarrow> QueuePolicy" where
  \<comment> \<open>\<open>QueuePolicy(max_queue_depth=n)\<close>\<close>
  "queue_policy_of n =
     \<lparr>qp_enabled = True, max_queue_depth = n, default_ttl_seconds = 3600,
      drop_policy = DROP_NONCRITICAL_FIRST\<rparr>"

definition raw_key_path :: "string \<Rightarrow> string \<Rightarrow> string" where
  \<comment> \<open>the path of the value under key \<open>k\<close>, as the cost-governor scans build it\<close>
  "raw_key_path path k = (if path \<noteq> [] then path @ ''.'' @ k else k)"

definition scan_key_path :: "string \<Rightarrow> string \<Rightarrow> string" where
  \<comment> \<open>the same for \<open>_scan_secrets\<close>\<close>
  "scan_key_path path k = path @ ''.'' @ k"

definition index_path :: "string \<Rightarrow> nat \<Rightarrow> string" where
  \<comment> \<open>the path of element \<open>i\<close> of a sequence\<close>
  "index_path path i = path @ ''['' @ str_nat i @ '']''"

text \<open>
  The string values of a document, each with its structural path, in document order:
  \<open>json_strings\<close> for a raw document (\<open>kp\<close> builds the path under a key),
  \<open>pyobj_strings\<close> for a tree of objects. \<open>json_keys\<close> lists the keys of every mapping
  of a raw document with the path of each.
\<close>

function json_strings ::
    "(string \<Rightarrow> string \<Rightarrow> string) \<Rightarrow> json \<Rightarrow> string \<Rightarrow> (string \<times> string) list"
  and json_strings_items ::
    "(string \<Rightarrow> string \<Rightarrow> string) \<Rightarrow> (string \<times> json) list \<Rightarrow> string
       \<Rightarrow> (string \<times> string) list"
  and json_strings_list ::
    "(string \<Rightarrow> string \<Rightarrow> string) \<Rightarrow> json list \<Rightarrow> nat \<Rightarrow> string \<Rightarrow> (string \<times> string) list"
where
  "json_strings kp (JStr s) path = [(path, s)]"
| "json_strings kp (JDict d) path = json_strings_items kp d path"
| "json_strings kp (JList xs) path = json_strings_list kp xs 0 path"
| "json_strings kp JNull path = []"
| "json_strings kp (JBool b) path = []"
| "json_strings kp (JInt i) path = []"
| "json_strings kp (JFloat r) path = []"
| "json_strings_items kp [] path = []"
| "json_strings_items kp ((k, v) # d) path =
     json_strings kp v (kp path k) @ json_strings_items kp d path"
| "json_strings_list kp [] i path = []"
| "json_strings_list kp (x # xs) i path =
     json_strings kp x (index_path path i) @ json_strings_list kp xs (Suc i) path"
  by pat_completeness auto
termination
  by (relation "measure (\<lambda>x. case x of Inl (kp, v, p) \<Rightarrow> size v
                            | Inr (Inl (kp, d, p)) \<Rightarrow> items_size d
                            | Inr (Inr (kp, xs, i, p)) \<Rightarrow> list_size xs)")
     (auto simp: list_size_def items_size_def)

function json_keys :: "json \<Rightarrow> string \<Rightarrow> (string \<times> string) list"
  and json_keys_items :: "(string \<times> json) list \<Rightarrow> string \<Rightarrow> (string \<times> string) list"
  and json_keys_list :: "json list \<Rightarrow> nat \<Rightarrow> string \<Rightarrow> (string \<times> string) list"
where
  "json_keys (JDict d) path = json_keys_items d path"
| "json_keys (JList xs) path = json_keys_list xs 0 path"
| "json_keys (JStr s) path = []"
| "json_keys JNull path = []"
| "json_keys (JBool b) path = []"
| "json_keys (JInt i) path = []"
| "json_keys (JFloat r) path = []"
| "json_keys_items [] path = []"
| "json_keys_items ((k, v) # d) path =
     (scan_key_path path k, k) # json_keys v (scan_key_path path k) @ json_keys_items d path"
| "json_keys_list [] i path = []"
| "json_keys_list (x # xs) i path =
     json_keys x (index_path path i) @ json_keys_list xs (Suc i) path"
  by pat_completeness auto
termination
  by (relation "measure (\<lambda>x. case x of Inl (v, p) \<Rightarrow> size v
                            | Inr (Inl (d, p)) \<Rightarrow> items_size d
                            | Inr (Inr (xs, i, p)) \<Rightarrow> list_size xs)")
     (auto simp: list_size_def items_size_def)

function pyobj_strings :: "'n pyobj \<Rightarrow> string \<Rightarrow> (string \<times> string) list"
  and pyobj_strings_seq :: "'n pyobj list \<Rightarrow> nat \<Rightarrow> string \<Rightarrow> (string \<times> string) list"
  and pyobj_strings_fields :: "(string \<times> 'n pyobj) list \<Rightarrow> string \<Rightarrow> (string \<times> string) list"
where
  "pyobj_strings (PStr s) path = [(path, s)]"
| "pyobj_strings (PEnum s) path = [(path, s)]"
| "pyobj_strings (PSeq xs) path = pyobj_strings_seq xs 0 path"
| "pyobj_strings (PData fs) path = pyobj_strings_fields fs path"
| "pyobj_strings PNone path = []"
| "pyobj_strings (PBool b) path = []"
| "pyobj_strings (PInt i) path = []"
| "pyobj_strings (PFloat x) path = []"
| "pyobj_strings_seq [] i path = []"
| "pyobj_strings_seq (x # xs) i path =
     pyobj_strings x (index_path path i) @ pyobj_strings_seq xs (Suc i) path"
| "pyobj_strings_fields [] path = []"
| "pyobj_strings_fields ((name, val) # fs) path =
     pyobj_strings val (raw_key_path path name) @ pyobj_strings_fields fs path"
  by pat_completeness auto
termination
  by (relation "measure (\<lambda>x. case x of Inl (v, p) \<Rightarrow> size v
                            | Inr (Inl (xs, i, p)) \<Rightarrow> pyobj_list_size xs
                            | Inr (Inr (fs, p)) \<Rightarrow> pyobj_fields_size fs)")
     (auto simp: pyobj_list_size_def pyobj_fields_size_def)

definition sk_finding :: "string \<Rightarrow> string \<Rightarrow> string" where
  \<comment> \<open>the finding of the \<open>sk-\<close> rule of the cost-governor scans for value \<open>s\<close> at \<open>path\<close>\<close>
  "sk_finding path s =
     ''Secret-like 'sk-' pattern found at '' @ path @ '': '' @ [sq] @ take 30 s @ [sq]"

definition apikey_finding :: "string \<Rightarrow> string \<Rightarrow> string" where
  \<comment> \<open>the finding of their \<open>apikey\<close> rule\<close>
  "apikey_finding path s =
     ''Bare apiKey literal found at '' @ path @ '': '' @ [sq] @ take 30 s @ [sq]"

definition str_findings :: "string \<times> string \<Rightarrow> string list" where
  \<comment> \<open>what the two rules say of one string value\<close>
  "str_findings ps =
     (case ps of (path, s) \<Rightarrow>
        (if search_ignorecase ''sk-'' s then [sk_finding path s] else []) @
        (if search_ignorecase ''apikey'' s \<and> \<not> startswith ''${'' s
         then [apikey_finding path s] else []))"

function scan_findings :: "json \<Rightarrow> string \<Rightarrow> string list"
  and scan_findings_items :: "(string \<times> json) list \<Rightarrow> string \<Rightarrow> string list"
  and scan_findings_list :: "json list \<Rightarrow> nat \<Rightarrow> string \<Rightarrow> string list"
where
  \<comment> \<open>what \<open>_scan_secrets\<close> appends, as a list of its own\<close>
  "scan_findings (JStr s) path =
     (if contains ''sk-'' s then [''secret-like 'sk-' substring found at '' @ path] else [])"
| "scan_findings (JDict d) path = scan_findings_items d path"
| "scan_findings (JList xs) path = scan_findings_list xs 0 path"
| "scan_findings JNull path = []"
| "scan_findings (JBool b) path = []"
| "scan_findings (JInt i) path = []"
| "scan_findings (JFloat r) path = []"
| "scan_findings_items [] path = []"
| "scan_findings_items ((key, v) # d) path =
     (if contains ''sk-'' key
      then [''secret-like 'sk-' substring found in key at '' @ scan_key_path path key]
      else []) @
     (if key \<in> set [''apiKey'', ''api_key'', ''API_KEY'']
         \<and> (\<not> is_str v \<or> \<not> startswith ''${'' (str_of v))
      then [''literal '' @ key @ '' detected at '' @ scan_key_path path key
              @ ''; use ${ENV_VAR}'']
      else []) @
     scan_findings v (scan_key_path path key) @ scan_findings_items d path"
| "scan_findings_list [] idx path = []"
| "scan_findings_list (item # xs) idx path =
     scan_findings item (index_path path idx) @ scan_findings_list xs (Suc idx) path"
  by pat_completeness auto
termination
  by (relation "measure (\<lambda>x. case x of Inl (v, p) \<Rightarrow> size v
                            | Inr (Inl (d, p)) \<Rightarrow> items_size d
                            | Inr (Inr (xs, i, p)) \<Rightarrow> list_size xs)")
     (auto simp: list_size_def items_size_def)

text \<open>
  The status of a health document as the specification words it, and the tally of its
  checks, to be compared with \<open>_derive_status\<close> and \<open>computed\<close>.
\<close>

definition status_of_checks :: "json list \<Rightarrow> string" where
  "status_of_checks checks =
     (if \<exists>c \<in> set checks. has_status ''unhealthy'' c then ''unhealthy''
      else if \<exists>c \<in> set checks. has_status ''degraded'' c then ''degraded''
      else if (\<forall>c \<in> set checks. has_status ''healthy'' c) \<and> checks \<noteq> [] then ''healthy''
      else ''unknown'')"

definition tally :: "json list \<Rightarrow> (string \<times> int) list" where
  "tally checks =
     [(''total'', int (length checks)),
      (''healthy'', int (length (filter (has_status ''healthy'') checks))),
      (''degraded'', int (length (filter (has_status ''degraded'') checks))),
      (''unhealthy'', int (length (filter (has_status ''unhealthy'') checks))),
      (''unknown'', int (length (filter (has_status ''unknown'') checks)))]"

definition summary_matches :: "(string \<times> json) list \<Rightarrow> json list \<Rightarrow> bool" where
  \<comment> \<open>each count of the summary equals the tally, with Python's \<open>==\<close> on numbers\<close>
  "summary_matches summary checks =
     (\<forall>(key, n) \<in> set (tally checks). num_value (dict_get summary key) = Some (of_int n))"

text \<open>
  Two conditions under which no check raises \<open>TypeError\<close>: in a health document the
  \<open>probe_type\<close> and \<open>status\<close> of every check are hashable (not a list, not a dict), and in
  a routing document the two caps of \<open>constraints\<close>, when both are there, are numbers.
\<close>

definition checks_hashable :: "(string \<times> json) list \<Rightarrow> bool" where
  "checks_hashable data =
     (case dict_get data ''checks'' of
        JList cs \<Rightarrow>
          (\<forall>c \<in> set cs. case c of
             JDict d \<Rightarrow> hashable (dict_get d ''probe_type'') \<and> hashable (dict_get d ''status'')
           | _ \<Rightarrow> True)
      | _ \<Rightarrow> True)"

definition caps_comparable :: "(string \<times> json) list \<Rightarrow> bool" where
  "caps_comparable data =
     (case dict_get data ''constraints'' of
        JDict c \<Rightarrow>
          dict_get c ''daily_soft_cap'' = JNull \<or> dict_get c ''daily_hard_cap'' = JNull
          \<or> (num_value (dict_get c ''daily_soft_cap'') \<noteq> None
              \<and> num_value (dict_get c ''daily_hard_cap'') \<noteq> None)
      | _ \<Rightarrow> True)"

definition alone :: "(string list \<Rightarrow> string list) \<Rightarrow> string list" where
  \<comment> \<open>what a check reports when it runs alone, on an empty list\<close>
  "alone check = check []"

definition found :: "(string list \<Rightarrow> exn + string list) \<Rightarrow> string list" where
  \<comment> \<open>the same for a check that can raise\<close>
  "found check = (case check [] of Inr errors \<Rightarrow> errors | Inl e \<Rightarrow> [])"

definition raises :: "(string list \<Rightarrow> exn + string list) \<Rightarrow> exn option" where
  \<comment> \<open>the exception such a check ends in, if it does\<close>
  "raises check = (case check [] of Inl e \<Rightarrow> Some e | Inr errors \<Rightarrow> None)"

definition uniform :: "(string list \<Rightarrow> exn + string list) \<Rightarrow> bool" where
  \<comment> \<open>a check that raises whatever the list it is given, or else appends to it findings
      that do not depend on it\<close>
  "uniform check =
     ((\<exists>e. \<forall>errors. check errors = Inl e) \<or> (\<exists>es. \<forall>errors. check errors = Inr (errors @ es)))"

text \<open>
  The findings of a document: what each check of \<open>runtime_invariants\<close> reports when it
  runs alone, on an empty list, in the order of the calls.
\<close>

definition cg_findings :: "('n \<Rightarrow> string) \<Rightarrow> ('n::ord) CostGovernor \<Rightarrow> string list" where
  "cg_findings fmt gov =
     alone (cg_soft_le_hard fmt gov) @ alone (cg_null_hard_none gov)
     @ alone (cg_degrade_ladder gov) @ alone (cg_halt_allowlist gov)
     @ check_no_secrets (PData (CostGovernor_fields gov)) [] []
     @ alone (cg_queue_policy gov)"

definition health_findings ::
  "(string \<Rightarrow> bool option) \<Rightarrow> (json \<Rightarrow> string) \<Rightarrow> (string \<times> json) list \<Rightarrow> string list" where
  "health_findings fromiso repr_rest data =
     alone (check_timestamp fromiso (dict_get data ''timestamp'') ''timestamp'')
     @ alone (check_service_name (dict_get data ''service''))
     @ found (check_checks fromiso (dict_get data ''checks''))
     @ alone (check_summary_and_status repr_rest data)
     @ scan_secrets (JDict data) [] ''$''"

definition logging_findings :: "(string \<Rightarrow> bool option) \<Rightarrow> (string \<times> json) list \<Rightarrow> string list" where
  "logging_findings fromiso event_dict =
     alone (check_timestamp fromiso (dict_get event_dict ''timestamp'') ''timestamp'')
     @ alone (check_non_empty_ids [''event_id'', ''task_id'', ''trace_id''] event_dict)
     @ alone (check_tokens event_dict)
     @ alone (check_decision_link event_dict)
     @ alone (check_decision (dict_get event_dict ''decision''))
     @ scan_secrets (JDict event_dict) [] ''$''"

definition routing_findings :: "(string \<Rightarrow> bool option) \<Rightarrow> (string \<times> json) list \<Rightarrow> string list" where
  "routing_findings fromiso data =
     alone (check_timestamp fromiso (dict_get data ''timestamp'') ''timestamp'')
     @ alone (check_non_empty_ids [''decision_id'', ''task_id'', ''trace_id''] data)
     @ alone (check_selected_matches_fallback data)
     @ alone (check_reason_codes (dict_get data ''reason_codes''))
     @ alone (check_cost_currency_pair data)
     @ found (check_constraint_caps (dict_get data ''constraints''))
     @ scan_secrets (JDict data) [] ''$''"

text \<open>Documents of the test suites, for the examples.\<close>

definition fromiso_test :: "string \<Rightarrow> bool option" where
  \<comment> \<open>\<open>datetime.fromisoformat\<close> on the one timestamp of the examples\<close>
  "fromiso_test s = (if s = ''2026-02-08T04:00:00+00:00'' then Some True else None)"

definition repr_test :: "json \<Rightarrow> string" where
  \<comment> \<open>\<open>repr\<close> on the one float of the examples\<close>
  "repr_test v = (if v = JFloat (21 / 5) then ''4.2'' else [])"

definition health_check_test :: "string \<Rightarrow> json" where
  \<comment> \<open>the check of \<open>VALID_MINIMAL_HEALTH\<close>, with the given status\<close>
  "health_check_test st =
     JDict [(''name'', JStr ''runtime_ping''), (''probe_type'', JStr ''liveness''),
            (''status'', JStr st), (''message'', JStr ''runtime alive''),
            (''duration_ms'', JFloat (21 / 5)), (''timestamp'', JStr ''2026-02-08T04:00:00Z'')]"

definition health_test :: "string \<Rightarrow> string \<Rightarrow> string \<Rightarrow> int \<Rightarrow> int \<Rightarrow> (string \<times> json) list" where
  \<comment> \<open>\<open>VALID_MINIMAL_HEALTH\<close> with the given status, service, status of its check and
      counts of healthy and unhealthy checks\<close>
  "health_test st service check_st n_healthy n_unhealthy =
     [(''status'', JStr st), (''timestamp'', JStr ''2026-02-08T04:00:00Z''),
      (''service'', JStr service), (''checks'', JList [health_check_test check_st]),
      (''summary'',
         JDict [(''total'', JInt 1), (''healthy'', JInt n_healthy), (''degraded'', JInt 0),
                (''unhealthy'', JInt n_unhealthy), (''unknown'', JInt 0)])]"

definition health_unhashable :: "(string \<times> json) list" where
  \<comment> \<open>a health document with a blank service name and a list as \<open>probe_type\<close>\<close>
  "health_unhashable =
     [(''status'', JStr ''healthy''), (''timestamp'', JStr ''2026-02-08T04:00:00Z''),
      (''service'', JStr '' ''),
      (''checks'',
         JList [JDict [(''name'', JStr ''runtime_ping''), (''probe_type'', JList []),
                       (''status'', JStr ''healthy''),
                       (''timestamp'', JStr ''2026-02-08T04:00:00Z'')]]),
      (''summary'',
         JDict [(''total'', JInt 1), (''healthy'', JInt 1), (''degraded'', JInt 0),
                (''unhealthy'', JInt 0), (''unknown'', JInt 0)])]"

definition health_unnamed :: "(string \<times> json) list" where
  \<comment> \<open>a health document with a blank service name and a list as the \<open>name\<close> of its check\<close>
  "health_unnamed =
     [(''status'', JStr ''healthy''), (''timestamp'', JStr ''2026-02-08T04:00:00Z''),
      (''service'', JStr '' ''),
      (''checks'',
         JList [JDict [(''name'', JList []), (''probe_type'', JStr ''liveness''),
                       (''status'', JStr ''healthy''),
                       (''timestamp'', JStr ''2026-02-08T04:00:00Z'')]]),
      (''summary'',
         JDict [(''total'', JInt 1), (''healthy'', JInt 1), (''degraded'', JInt 0),
                (''unhealthy'', JInt 0), (''unknown'', JInt 0)])]"

definition routing_incomparable :: "(string \<times> json) list" where
  \<comment> \<open>\<open>VALID_MINIMAL_DECISION\<close> with reason codes out of order, a string as soft cap and
      a number as hard cap\<close>
  "routing_incomparable =
     [(''decision_id'', JStr ''dec-900''), (''timestamp'', JStr ''2026-02-07T12:20:00Z''),
      (''task_id'', JStr ''job-route-900''), (''trace_id'', JStr ''trace-route-900''),
      (''selected_provider'', JStr ''openrouter''), (''selected_model'', JStr ''gpt-4o-mini''),
      (''fallback_chain'',
         JList [JDict [(''provider'', JStr ''openrouter''), (''model'', JStr ''gpt-4o-mini'')],
                JDict [(''provider'', JStr ''anthropic''),
                       (''model'', JStr ''claude-3-haiku'')]]),
      (''reason_codes'', JList [JStr ''Z_LAST'', JStr ''A_FIRST'']),
      (''constraints'',
         JDict [(''privacy_class'', JStr ''internal''), (''latency_target_ms'', JInt 500),
                (''daily_soft_cap'', JStr ''a''), (''daily_hard_cap'', JInt 1)])]"

definition ladder_doc :: json where
  \<comment> \<open>a raw cost-governor document with secrets among the entries of its ladder\<close>
  "ladder_doc =
     JDict [(''currency'', JStr ''USD''),
            (''model_degrade_ladder'',
               JList [JStr ''SK-injected-key'', JStr ''${API_KEY}'', JStr ''my-ApiKey''])]"

section \<open>Properties of the decision engine\<close>

lemma evaluate_queue_dispatch:
  "reaches_queue_dispatch gov estimated_cost spent_today \<Longrightarrow>
   evaluate fmt gov estimated_cost spent_today task_id is_critical queue_depth =
   apply_queue_overflow gov (queue_outcome gov estimated_cost spent_today) queue_depth"
  by (auto simp: reaches_queue_dispatch_def queue_outcome_def evaluate_def Let_def
        hard_cap_dispatch_def soft_cap_dispatch_def split: if_splits)

text \<open>
  Claim C1. On every input that reaches a QUEUE dispatch of \<open>evaluate\<close> (from the hard cap
  or from the soft cap): with a queue policy, a queue depth at or above \<open>max_queue_depth\<close>
  gives the BLOCK decision with reason \<open>queue_overflow\<close> and a depth below it gives the
  QUEUE decision; in particular depth \<open>max_queue_depth\<close> blocks and depth
  \<open>max_queue_depth - 1\<close> queues. Without a queue policy the QUEUE decision is returned as
  it was built.
\<close>

theorem queue_overflow_rule:
  assumes "reaches_queue_dispatch gov estimated_cost spent_today"
  shows "(\<forall>qp. queue_policy gov = Some qp \<longrightarrow>
            (queue_depth \<ge> max_queue_depth qp \<longrightarrow>
               evaluate fmt gov estimated_cost spent_today task_id is_critical queue_depth
                 = mk_Decision BLOCK ''queue_overflow'') \<and>
            (queue_depth < max_queue_depth qp \<longrightarrow>
               evaluate fmt gov estimated_cost spent_today task_id is_critical queue_depth
                 = queue_outcome gov estimated_cost spent_today) \<and>
            evaluate fmt gov estimated_cost spent_today task_id is_critical
                (max_queue_depth qp)
              = mk_Decision BLOCK ''queue_overflow'' \<and>
            action (evaluate fmt gov estimated_cost spent_today task_id is_critical
                      (max_queue_depth qp - 1)) = QUEUE) \<and>
         (queue_policy gov = None \<longrightarrow>
            evaluate fmt gov estimated_cost spent_today task_id is_critical queue_depth
              = queue_outcome gov estimated_cost spent_today) \<and>
         action (queue_outcome gov estimated_cost spent_today) = QUEUE"
  using assms
  by (auto simp: evaluate_queue_dispatch apply_queue_overflow_def queue_outcome_def
        mk_Decision_def)

theorem queue_overflow_rule_witness:
  "evaluate str_int
     (gov_test\<lparr>on_hard_cap := Hard_QUEUE_REQUESTS, queue_policy := Some (queue_policy_of 50)\<rparr>)
     5 18 ''t1'' False 50 = mk_Decision BLOCK ''queue_overflow'' \<and>
   action (evaluate str_int
     (gov_test\<lparr>on_hard_cap := Hard_QUEUE_REQUESTS, queue_policy := Some (queue_policy_of 50)\<rparr>)
     5 18 ''t1'' False 49) = QUEUE"
  using queue_overflow_rule
    [of "gov_test\<lparr>on_hard_cap := Hard_QUEUE_REQUESTS,
                   queue_policy := Some (queue_policy_of 50)\<rparr>" 5 18 50 str_int "''t1''" False]
  by (simp add: reaches_queue_dispatch_def per_request_gate_def hard_cap_exceeded_def
        gov_test_def queue_policy_of_def)

text \<open>
  Claim C3. With \<open>on_soft_cap = DEGRADE_MODEL\<close> and a ladder that has a first element,
  whenever \<open>evaluate\<close> resolves in the soft-cap phase (phase 0 and the hard-cap phase do
  not resolve, and the projected spend exceeds \<open>daily_soft_cap\<close>), the decision is DEGRADE
  and its \<open>degraded_model\<close> is the first element of the ladder.
\<close>

theorem degrade_first_rung:
  assumes "on_soft_cap gov = Soft_DEGRADE_MODEL"
    and "model_degrade_ladder gov = m # rest"
    and "\<not> per_request_gate gov estimated_cost"
    and "\<not> hard_cap_exceeded gov (spent_today + estimated_cost)"
    and "soft_cap_exceeded gov (spent_today + estimated_cost)"
  shows "action (evaluate fmt gov estimated_cost spent_today task_id is_critical queue_depth)
           = DEGRADE \<and>
         degraded_model
           (evaluate fmt gov estimated_cost spent_today task_id is_critical queue_depth)
           = Some m"
  using assms by (simp add: evaluate_def Let_def soft_cap_dispatch_def mk_Decision_def)

theorem degrade_first_rung_witness:
  "degraded_model
     (evaluate str_int
        (gov_test\<lparr>on_soft_cap := Soft_DEGRADE_MODEL,
                   model_degrade_ladder := [''gpt-4o-mini'', ''claude-3-haiku'']\<rparr>)
        5 8 ''t1'' False 0) = Some ''gpt-4o-mini''"
  using degrade_first_rung
    [of "gov_test\<lparr>on_soft_cap := Soft_DEGRADE_MODEL,
                   model_degrade_ladder := [''gpt-4o-mini'', ''claude-3-haiku'']\<rparr>"
        "''gpt-4o-mini''" "[''claude-3-haiku'']" 5 8 str_int "''t1''" False 0]
  by (simp add: per_request_gate_def hard_cap_exceeded_def soft_cap_exceeded_def gov_test_def)

text \<open>
  Claim C4. With a hard cap set and \<open>on_hard_cap = NONE\<close>, on every input whose projected
  spend exceeds the hard cap and that phase 0 lets through, \<open>evaluate\<close> returns a BLOCK
  decision whose reason contains \<open>invariant_violation\<close>. \<open>evaluate\<close> returns a
  \<open>Decision\<close> on every input: no branch of the source raises.
\<close>

theorem hard_none_blocks:
  assumes "daily_hard_cap gov = Some h"
    and "on_hard_cap gov = Hard_NONE"
    and "spent_today + estimated_cost > h"
    and "\<not> per_request_gate gov estimated_cost"
  shows "action (evaluate fmt gov estimated_cost spent_today task_id is_critical queue_depth)
           = BLOCK \<and>
         contains ''invariant_violation''
           (reason (evaluate fmt gov estimated_cost spent_today task_id is_critical
                      queue_depth))"
  using assms
  by (simp add: evaluate_def Let_def hard_cap_exceeded_def hard_cap_dispatch_def
        mk_Decision_def)

theorem hard_none_blocks_witness:
  "action (evaluate str_int (gov_test\<lparr>on_hard_cap := Hard_NONE\<rparr>) 5 18 ''t1'' False 0) = BLOCK \<and>
   contains ''invariant_violation''
     (reason (evaluate str_int (gov_test\<lparr>on_hard_cap := Hard_NONE\<rparr>) 5 18 ''t1'' False 0))"
  using hard_none_blocks
    [of "gov_test\<lparr>on_hard_cap := Hard_NONE\<rparr>" 20 18 5 str_int "''t1''" False 0]
  by (simp add: per_request_gate_def gov_test_def)

text \<open>
  Claim C10. In every decision \<open>evaluate\<close> returns, \<open>deferred\<close> is set only with action
  QUEUE, \<open>log\<close> and \<open>notify\<close> only with action ALLOW, and \<open>degraded_model\<close> only with
  action DEGRADE.
\<close>

theorem flags_coherent:
  "(let d = evaluate fmt gov estimated_cost spent_today task_id is_critical queue_depth in
      (deferred d \<longrightarrow> action d = QUEUE) \<and> (log_flag d \<longrightarrow> action d = ALLOW) \<and>
      (notify d \<longrightarrow> action d = ALLOW) \<and> (degraded_model d \<noteq> None \<longrightarrow> action d = DEGRADE))"
  by (auto simp: evaluate_def Let_def hard_cap_dispatch_def soft_cap_dispatch_def
        apply_queue_overflow_def mk_Decision_def
        split: OnHardCap.splits OnSoftCap.splits option.splits list.splits)

theorem flags_coherent_witness:
  "deferred
     (evaluate str_int
        (gov_test\<lparr>on_hard_cap := Hard_QUEUE_REQUESTS_DEFER,
                   queue_policy := Some (queue_policy_of 100)\<rparr>) 5 18 ''t1'' False 0) \<and>
   action
     (evaluate str_int
        (gov_test\<lparr>on_hard_cap := Hard_QUEUE_REQUESTS_DEFER,
                   queue_policy := Some (queue_policy_of 100)\<rparr>) 5 18 ''t1'' False 0) = QUEUE"
  using flags_coherent
    [of str_int "gov_test\<lparr>on_hard_cap := Hard_QUEUE_REQUESTS_DEFER,
                           queue_policy := Some (queue_policy_of 100)\<rparr>" 5 18 "''t1''" False 0]
  by (simp add: Let_def evaluate_def per_request_gate_def hard_cap_exceeded_def
        hard_cap_dispatch_def apply_queue_overflow_def mk_Decision_def gov_test_def
        queue_policy_of_def)


section \<open>Properties of the secret scans\<close>

lemma check_str_findings: "check_str s errors path = errors @ str_findings (path, s)"
  by (simp add: check_str_def str_findings_def sk_finding_def apikey_finding_def Let_def)

lemma check_no_secrets_raw_findings:
  "check_no_secrets_raw v errors path
     = errors @ concat (map str_findings (json_strings raw_key_path v path))"
  "check_no_secrets_raw_items d errors path
     = errors @ concat (map str_findings (json_strings_items raw_key_path d path))"
  "check_no_secrets_raw_list xs i errors path
     = errors @ concat (map str_findings (json_strings_list raw_key_path xs i path))"
  by (induction v errors path and d errors path and xs i errors path
        rule: check_no_secrets_raw_check_no_secrets_raw_items_check_no_secrets_raw_list.induct)
     (simp_all add: check_str_findings raw_key_path_def index_path_def)

lemma check_no_secrets_findings:
  fixes obj :: "'n pyobj" and xs :: "'n pyobj list" and fs :: "(string \<times> 'n pyobj) list"
  shows "check_no_secrets obj errors path
     = errors @ concat (map str_findings (pyobj_strings obj path))"
    and "check_no_secrets_seq xs i errors path
     = errors @ concat (map str_findings (pyobj_strings_seq xs i path))"
    and "check_no_secrets_fields fs errors path
     = errors @ concat (map str_findings (pyobj_strings_fields fs path))"
  by (induction obj errors path and xs i errors path and fs errors path
        rule: check_no_secrets_check_no_secrets_seq_check_no_secrets_fields.induct)
     (simp_all add: check_str_findings raw_key_path_def index_path_def)

lemma scan_secrets_findings:
  "scan_secrets v errors path = errors @ scan_findings v path"
  "scan_secrets_items d errors path = errors @ scan_findings_items d path"
  "scan_secrets_list xs i errors path = errors @ scan_findings_list xs i path"
  by (induction v errors path and d errors path and xs i errors path
        rule: scan_secrets_scan_secrets_items_scan_secrets_list.induct)
     (simp_all add: scan_key_path_def index_path_def Let_def)

lemma scan_findings_values:
  "(p, s) \<in> set (json_strings scan_key_path v path) \<Longrightarrow> contains ''sk-'' s \<Longrightarrow>
     (''secret-like 'sk-' substring found at '' @ p) \<in> set (scan_findings v path)"
  "(p, s) \<in> set (json_strings_items scan_key_path d path) \<Longrightarrow> contains ''sk-'' s \<Longrightarrow>
     (''secret-like 'sk-' substring found at '' @ p) \<in> set (scan_findings_items d path)"
  "(p, s) \<in> set (json_strings_list scan_key_path xs i path) \<Longrightarrow> contains ''sk-'' s \<Longrightarrow>
     (''secret-like 'sk-' substring found at '' @ p) \<in> set (scan_findings_list xs i path)"
  by (induction v path and d path and xs i path
        rule: scan_findings_scan_findings_items_scan_findings_list.induct) auto

lemma scan_findings_keys:
  "(p, k) \<in> set (json_keys v path) \<Longrightarrow> contains ''sk-'' k \<Longrightarrow>
     (''secret-like 'sk-' substring found in key at '' @ p) \<in> set (scan_findings v path)"
  "(p, k) \<in> set (json_keys_items d path) \<Longrightarrow> contains ''sk-'' k \<Longrightarrow>
     (''secret-like 'sk-' substring found in key at '' @ p) \<in> set (scan_findings_items d path)"
  "(p, k) \<in> set (json_keys_list xs i path) \<Longrightarrow> contains ''sk-'' k \<Longrightarrow>
     (''secret-like 'sk-' substring found in key at '' @ p) \<in> set (scan_findings_list xs i path)"
  by (induction v path and d path and xs i path
        rule: scan_findings_scan_findings_items_scan_findings_list.induct) auto


text \<open>
  Claim C6, as amended. The two cost-governor scans, \<open>_check_no_secrets\<close> over a tree of
  objects and \<open>_check_no_secrets_raw\<close> over a raw document, append to \<open>errors\<close>, for each
  string value of the tree at any depth and in document order, one finding at the value's
  structural path when the value contains \<open>sk-\<close> in any letter case, and one when it
  contains \<open>apikey\<close> in any letter case and does not begin with \<open>${\<close>; nothing else is
  appended, so every occurrence is reported and a value that begins with \<open>${\<close> gets no
  \<open>apikey\<close> finding. \<open>_scan_secrets\<close> of the health, logging and routing validators
  reports, at its path, each string value that contains \<open>sk-\<close> as written.
\<close>

theorem secret_scan_values:
  fixes obj :: "'n pyobj"
  shows "check_no_secrets obj errors path
           = errors @ concat (map str_findings (pyobj_strings obj path)) \<and>
         check_no_secrets_raw v errors path
           = errors @ concat (map str_findings (json_strings raw_key_path v path)) \<and>
         (\<forall>(p, s) \<in> set (json_strings scan_key_path v path).
            contains ''sk-'' s \<longrightarrow>
            (''secret-like 'sk-' substring found at '' @ p) \<in> set (scan_secrets v errors path))"
  by (auto simp: check_no_secrets_findings check_no_secrets_raw_findings scan_secrets_findings
        dest: scan_findings_values)

theorem secret_scan_values_witness:
  "check_no_secrets (PSeq [PStr ''sk-fake-key-12345'', PInt 3 :: int pyobj]) []
     ''model_degrade_ladder''
     = [sk_finding ''model_degrade_ladder[0]'' ''sk-fake-key-12345''] \<and>
   check_no_secrets_raw ladder_doc [] []
     = [sk_finding ''model_degrade_ladder[0]'' ''SK-injected-key'',
        apikey_finding ''model_degrade_ladder[2]'' ''my-ApiKey''] \<and>
   ''secret-like 'sk-' substring found at $.meta.note''
     \<in> set (scan_secrets (JDict [(''meta'', JDict [(''note'', JStr ''sk-fake'')])]) [] ''$'')"
  using secret_scan_values
      [of "PSeq [PStr ''sk-fake-key-12345'', PInt 3 :: int pyobj]" "[]" "''model_degrade_ladder''"
          JNull]
    secret_scan_values [of "PNone :: int pyobj" "[]" "[]" ladder_doc]
    secret_scan_values
      [of "PNone :: int pyobj" "[]" "''$''"
          "JDict [(''meta'', JDict [(''note'', JStr ''sk-fake'')])]"]
  by (simp add: ladder_doc_def str_findings_def search_ignorecase_def lower_def lower_char_def
        raw_key_path_def scan_key_path_def index_path_def digit_def)

text \<open>
  Claim C6 as it is stated fails on \<open>_scan_secrets\<close>: a value with \<open>SK-\<close> in upper case
  contains \<open>sk-\<close> case-insensitively, and a value with \<open>apikey\<close> in it does not begin with
  \<open>${\<close>, yet the scan of a document holding either reports nothing.
\<close>

theorem secret_scan_values_counterexample:
  "search_ignorecase ''sk-'' ''SK-LIVE-123'' \<and>
   scan_secrets (JDict [(''note'', JStr ''SK-LIVE-123'')]) [] ''$'' = [] \<and>
   search_ignorecase ''apikey'' ''my apikey'' \<and> \<not> startswith ''${'' ''my apikey'' \<and>
   scan_secrets (JDict [(''note'', JStr ''my apikey'')]) [] ''$'' = []"
  by (simp add: search_ignorecase_def lower_def lower_char_def is_str_def str_of_def)

text \<open>
  Claim C7, as amended. For every raw document and every mapping in it at any depth,
  \<open>_scan_secrets\<close> (health, logging and routing validators) reports each key that contains
  \<open>sk-\<close>, with a finding at the key's path. The findings of the cost-governor's
  \<open>_check_no_secrets_raw\<close> are those of the string values alone: a key enters the path of
  its value and nothing else.
\<close>

theorem scan_secrets_flags_keys:
  "(\<forall>(p, k) \<in> set (json_keys v path).
      contains ''sk-'' k \<longrightarrow>
      (''secret-like 'sk-' substring found in key at '' @ p)
        \<in> set (scan_secrets v errors path)) \<and>
   check_no_secrets_raw v errors path
     = errors @ concat (map str_findings (json_strings raw_key_path v path))"
  by (auto simp: scan_secrets_findings check_no_secrets_raw_findings dest: scan_findings_keys)

theorem scan_secrets_flags_keys_witness:
  "''secret-like 'sk-' substring found in key at $.meta.sk-live-abc''
     \<in> set (scan_secrets (JDict [(''meta'', JDict [(''sk-live-abc'', JBool True)])]) [] ''$'')"
  using scan_secrets_flags_keys
    [of "JDict [(''meta'', JDict [(''sk-live-abc'', JBool True)])]" "''$''" "[]"]
  by (simp add: scan_key_path_def)

text \<open>
  Claim C7 as it is stated fails on \<open>_check_no_secrets_raw\<close>: a document whose only key
  contains \<open>sk-\<close> passes the scan with no finding.
\<close>

theorem scan_secrets_flags_keys_counterexample:
  "contains ''sk-'' ''sk-live-abc'' \<and>
   check_no_secrets_raw (JDict [(''sk-live-abc'', JBool True)]) [] [] = []"
  by simp

section \<open>Properties of the validators\<close>

lemma py_eq_JStr: "py_eq a (JStr s) = (a = JStr s)"
  by (cases a) (auto simp: num_value_def)

lemma py_eq_JInt: "py_eq a (JInt i) = (num_value a = Some (of_int i))"
  by (cases a) (auto simp: num_value_def)

lemma length_filter_all: "(length (filter P xs) = length xs) = (\<forall>x \<in> set xs. P x)"
proof (induction xs)
  case Nil
  show ?case by simp
next
  case (Cons x xs)
  show ?case
    using Cons length_filter_le [of P xs] by (auto simp del: length_filter_le)
qed

lemma derive_status_spec: "derive_status (compute_counts checks) = status_of_checks checks"
proof -
  have pos: "\<And>s. (0 < count_status s checks) = (\<exists>c \<in> set checks. has_status s c)"
    by (auto simp: count_status_def filter_empty_conv)
  have all: "(healthy (compute_counts checks) = total_n (compute_counts checks))
               = (\<forall>c \<in> set checks. has_status ''healthy'' c)"
    by (simp add: compute_counts_def count_status_def length_filter_all)
  have nonempty: "(0 < total_n (compute_counts checks)) = (checks \<noteq> [])"
    by (simp add: compute_counts_def)
  show ?thesis
    unfolding derive_status_def status_of_checks_def all nonempty
    by (simp add: compute_counts_def pos)
qed

lemma counts_items_tally: "counts_items (compute_counts checks) = tally checks"
  by (simp add: counts_items_def compute_counts_def tally_def count_status_def)

text \<open>Every check appends to the list it is given.\<close>

lemma check_timestamp_alone:
  "check_timestamp fromiso val field errors = errors @ alone (check_timestamp fromiso val field)"
  by (simp add: alone_def check_timestamp_def Let_def split: json.splits option.splits)

lemma check_service_name_alone:
  "check_service_name val errors = errors @ alone (check_service_name val)"
  by (simp add: alone_def check_service_name_def)

lemma check_non_empty_ids_append:
  "check_non_empty_ids flds data errors = errors @ check_non_empty_ids flds data []"
proof (induction flds arbitrary: errors)
  case Nil
  show ?case by simp
next
  case (Cons f flds)
  let ?m = "if \<not> non_empty_str (dict_get data f) then [f @ '' must be a non-empty string'']
            else []"
  have "check_non_empty_ids (f # flds) data errors = check_non_empty_ids flds data (errors @ ?m)"
    by simp
  also have "\<dots> = (errors @ ?m) @ check_non_empty_ids flds data []"
    by (rule Cons.IH)
  also have "\<dots> = errors @ (?m @ check_non_empty_ids flds data [])"
    by simp
  also have "?m @ check_non_empty_ids flds data [] = check_non_empty_ids flds data ?m"
    by (rule Cons.IH [symmetric])
  also have "check_non_empty_ids flds data ?m = check_non_empty_ids (f # flds) data []"
    by simp
  finally show ?case .
qed

lemma check_non_empty_ids_alone:
  "check_non_empty_ids flds data errors = errors @ alone (check_non_empty_ids flds data)"
  unfolding alone_def by (rule check_non_empty_ids_append)

lemma check_summary_loop_findings:
  "check_summary_loop rr items summary errors
     = errors @ concat (map (\<lambda>(key, expected).
         if num_value (dict_get summary key) \<noteq> Some (of_int expected)
         then [''summary.'' @ key @ '' must equal computed value '' @ str_int expected
                 @ '', got '' @ py_str rr (dict_get summary key)]
         else []) items)"
  by (induction items arbitrary: errors) (auto simp: Let_def py_eq_JInt)

lemma check_summary_and_status_alone:
  "check_summary_and_status rr data errors = errors @ alone (check_summary_and_status rr data)"
  by (simp add: alone_def check_summary_and_status_def Let_def check_summary_loop_findings
        split: json.splits)

lemma check_tokens_alone: "check_tokens ev errors = errors @ alone (check_tokens ev)"
  by (simp add: alone_def check_tokens_def Let_def)

lemma check_decision_alone: "check_decision d errors = errors @ alone (check_decision d)"
  by (auto simp: alone_def check_decision_def Let_def split: json.splits)

lemma check_decision_link_alone:
  "check_decision_link ev errors = errors @ alone (check_decision_link ev)"
  by (simp add: alone_def check_decision_link_def Let_def)

lemma check_selected_matches_fallback_alone:
  "check_selected_matches_fallback data errors
     = errors @ alone (check_selected_matches_fallback data)"
  by (simp add: alone_def check_selected_matches_fallback_def split: json.splits list.splits)

lemma check_reason_codes_alone:
  "check_reason_codes rc errors = errors @ alone (check_reason_codes rc)"
  by (simp add: alone_def check_reason_codes_def Let_def split: json.splits)

lemma check_cost_currency_pair_alone:
  "check_cost_currency_pair data errors = errors @ alone (check_cost_currency_pair data)"
  by (simp add: alone_def check_cost_currency_pair_def)

lemma uniform_run:
  assumes "uniform check"
  shows "check errors
           = (case raises check of Some e \<Rightarrow> Inl e | None \<Rightarrow> Inr (errors @ found check))"
proof -
  from assms consider e where "\<forall>errors. check errors = Inl e"
    | es where "\<forall>errors. check errors = Inr (errors @ es)"
    unfolding uniform_def by blast
  then show ?thesis
  proof cases
    case 1
    then show ?thesis by (simp add: raises_def)
  next
    case 2
    then have "check [] = Inr es" by (metis append_Nil)
    with 2 show ?thesis by (simp add: raises_def found_def)
  qed
qed

lemma shift_errors:
  "(\<exists>e. \<forall>errors. f errors = Inl e) \<or> (\<exists>es. \<forall>errors. f errors = Inr (errors @ es)) \<Longrightarrow>
   (\<exists>e. \<forall>errors. f (errors @ X) = Inl e) \<or> (\<exists>ms. \<forall>errors. f (errors @ X) = Inr (errors @ ms))"
  by (metis append_assoc)

lemma check_checks_loop_uniform: "uniform (check_checks_loop fromiso cs idx seen)"
proof (induction cs arbitrary: idx seen)
  case Nil
  have "\<forall>errors. check_checks_loop fromiso [] idx seen errors = Inr (errors @ [])" by simp
  then show ?case unfolding uniform_def by blast
next
  case (Cons c cs)
  have rest: "(\<exists>e. \<forall>errors. check_checks_loop fromiso cs idx seen errors = Inl e)
      \<or> (\<exists>es. \<forall>errors. check_checks_loop fromiso cs idx seen errors = Inr (errors @ es))"
    for idx seen
    using Cons.IH [of idx seen] by (simp add: uniform_def)
  show ?case
  proof (cases "is_dict c")
    case False
    then have "\<And>errors. check_checks_loop fromiso (c # cs) idx seen errors
        = check_checks_loop fromiso cs (Suc idx) seen
            (errors @ [''checks['' @ str_nat idx @ '']'' @ '' must be an object''])"
      by (cases c) (simp_all add: is_dict_def del: str_nat.simps)
    then show ?thesis
      unfolding uniform_def using shift_errors [OF rest [of "Suc idx" seen]] by simp
  next
    case True
    then obtain d where c: "c = JDict d" by (cases c) (simp_all add: is_dict_def)
    show ?thesis
    proof (cases "in_str_set (dict_get d ''probe_type'') [''liveness'', ''readiness'', ''startup'']")
      case (Inl e)
      then have "\<forall>errors. check_checks_loop fromiso (c # cs) idx seen errors = Inl e"
        by (simp add: c Let_def del: str_nat.simps)
      then show ?thesis unfolding uniform_def by blast
    next
      case pk: (Inr pk)
      show ?thesis
      proof (cases "in_str_set (dict_get d ''status'') ALLOWED_STATES")
        case (Inl e)
        then have "\<forall>errors. check_checks_loop fromiso (c # cs) idx seen errors = Inl e"
          by (simp add: c Let_def pk del: str_nat.simps)
        then show ?thesis unfolding uniform_def by blast
      next
        case sk: (Inr sk)
        show ?thesis
          unfolding uniform_def
          by (cases "non_empty_str (dict_get d ''name'')";
              cases "str_of (dict_get d ''name'') \<in> set seen"; cases pk; cases sk;
              simp add: c Let_def pk sk check_timestamp_alone del: str_nat.simps;
              rule shift_errors; rule rest)
      qed
    qed
  qed
qed

lemma check_checks_uniform: "uniform (check_checks fromiso checks)"
proof (cases checks)
  case (JList cs)
  show ?thesis
  proof (cases "cs = []")
    case True
    then have "\<forall>errors. check_checks fromiso checks errors
        = Inr (errors @ [''checks must be a non-empty list''])"
      by (simp add: JList check_checks_def)
    then show ?thesis unfolding uniform_def by blast
  next
    case False
    then have "check_checks fromiso checks = check_checks_loop fromiso cs 0 []"
      by (simp add: JList check_checks_def fun_eq_iff)
    then show ?thesis by (simp add: check_checks_loop_uniform)
  qed
qed (simp_all add: check_checks_def uniform_def)

lemma check_constraint_caps_uniform: "uniform (check_constraint_caps constraints)"
proof (cases constraints)
  case (JDict c)
  show ?thesis
  proof (cases "dict_get c ''daily_soft_cap'' \<noteq> JNull \<and> dict_get c ''daily_hard_cap'' \<noteq> JNull")
    case False
    then have "\<forall>errors. check_constraint_caps constraints errors = Inr (errors @ [])"
      by (auto simp: JDict check_constraint_caps_def)
    then show ?thesis unfolding uniform_def by blast
  next
    case True
    show ?thesis
    proof (cases "py_gt (dict_get c ''daily_soft_cap'') (dict_get c ''daily_hard_cap'')")
      case (Inl e)
      with True have "\<forall>errors. check_constraint_caps constraints errors = Inl e"
        by (simp add: JDict check_constraint_caps_def)
      then show ?thesis unfolding uniform_def by blast
    next
      case (Inr gt)
      with True have "\<forall>errors. check_constraint_caps constraints errors
          = Inr (errors @ (if gt then [''constraints.daily_soft_cap must be <= ''
                                         @ ''constraints.daily_hard_cap''] else []))"
        by (simp add: JDict check_constraint_caps_def)
      then show ?thesis unfolding uniform_def by blast
    qed
  qed
qed (simp_all add: check_constraint_caps_def uniform_def)

lemma check_checks_loop_no_raise:
  assumes "\<forall>c \<in> set cs. case c of
             JDict d \<Rightarrow> hashable (dict_get d ''probe_type'') \<and> hashable (dict_get d ''status'')
           | _ \<Rightarrow> True"
  shows "\<exists>es. check_checks_loop fromiso cs idx seen errors = Inr es"
  using assms
proof (induction cs arbitrary: idx seen errors)
  case Nil
  show ?case by simp
next
  case (Cons c cs)
  then have rest: "\<And>idx seen errors. \<exists>es. check_checks_loop fromiso cs idx seen errors = Inr es"
    by simp
  show ?case
  proof (cases "is_dict c")
    case False
    then show ?thesis
      using rest by (cases c) (simp_all add: is_dict_def del: str_nat.simps)
  next
    case True
    then obtain d where c: "c = JDict d" by (cases c) (simp_all add: is_dict_def)
    from Cons.prems c
    have "hashable (dict_get d ''probe_type'')" and "hashable (dict_get d ''status'')"
      by simp_all
    then show ?thesis
      using rest by (simp add: c Let_def in_str_set_def del: str_nat.simps)
  qed
qed

lemma checks_hashable_no_raise:
  assumes "checks_hashable data"
  shows "raises (check_checks fromiso (dict_get data ''checks'')) = None"
proof (cases "dict_get data ''checks''")
  case (JList cs)
  with assms have "\<forall>c \<in> set cs. case c of
      JDict d \<Rightarrow> hashable (dict_get d ''probe_type'') \<and> hashable (dict_get d ''status'')
    | _ \<Rightarrow> True"
    by (simp add: checks_hashable_def)
  from check_checks_loop_no_raise [OF this, of fromiso 0 "[]" "[]"] show ?thesis
    by (auto simp: JList raises_def check_checks_def)
qed (simp_all add: raises_def check_checks_def)

lemma num_gt_total: "num_value b \<noteq> None \<Longrightarrow> \<exists>g. num_gt x b = Inr g"
  by (auto simp: num_gt_def)

lemma py_gt_numbers:
  "num_value a \<noteq> None \<Longrightarrow> num_value b \<noteq> None \<Longrightarrow> \<exists>g. py_gt a b = Inr g"
  by (cases a) (simp_all add: num_value_def num_gt_total)

lemma caps_comparable_no_raise:
  assumes "caps_comparable data"
  shows "raises (check_constraint_caps (dict_get data ''constraints'')) = None"
proof (cases "dict_get data ''constraints''")
  case (JDict c)
  show ?thesis
  proof (cases "dict_get c ''daily_soft_cap'' = JNull \<or> dict_get c ''daily_hard_cap'' = JNull")
    case True
    then show ?thesis by (auto simp: JDict check_constraint_caps_def raises_def)
  next
    case False
    with assms JDict obtain g where
      "py_gt (dict_get c ''daily_soft_cap'') (dict_get c ''daily_hard_cap'') = Inr g"
      using py_gt_numbers by (auto simp: caps_comparable_def)
    with False show ?thesis by (simp add: JDict check_constraint_caps_def raises_def)
  qed
qed (simp_all add: check_constraint_caps_def raises_def)

lemma cg_rules_alone:
  "cg_soft_le_hard fmt gov errors = errors @ alone (cg_soft_le_hard fmt gov)"
  "cg_null_hard_none gov errors = errors @ alone (cg_null_hard_none gov)"
  "cg_degrade_ladder gov errors = errors @ alone (cg_degrade_ladder gov)"
  "cg_halt_allowlist gov errors = errors @ alone (cg_halt_allowlist gov)"
  "cg_queue_policy gov errors = errors @ alone (cg_queue_policy gov)"
  by (simp_all add: alone_def cg_soft_le_hard_def cg_null_hard_none_def cg_degrade_ladder_def
        cg_halt_allowlist_def cg_queue_policy_def Let_def split: option.splits)

lemma cg_errors_findings: "cg_errors fmt gov = cg_findings fmt gov"
  by (simp add: cg_errors_def cg_findings_def Let_def cg_rules_alone check_no_secrets_findings)

lemma health_accumulates:
  "health_runtime_invariants fromiso rr data
     = (case raises (check_checks fromiso (dict_get data ''checks'')) of
          Some e \<Rightarrow> Inl e
        | None \<Rightarrow> raise_if_errors health_header bullet (health_findings fromiso rr data))"
  by (simp add: health_runtime_invariants_def health_findings_def Let_def
        uniform_run [OF check_checks_uniform] check_timestamp_alone check_service_name_alone
        check_summary_and_status_alone scan_secrets_findings split: option.splits)

lemma logging_accumulates: "logging_errors fromiso ev = logging_findings fromiso ev"
  by (simp add: logging_errors_def logging_findings_def Let_def check_timestamp_alone
        check_non_empty_ids_alone check_tokens_alone check_decision_link_alone
        check_decision_alone scan_secrets_findings)

lemma routing_accumulates:
  "routing_runtime_invariants fromiso data
     = (case raises (check_constraint_caps (dict_get data ''constraints'')) of
          Some e \<Rightarrow> Inl e
        | None \<Rightarrow> raise_if_errors routing_header bullet (routing_findings fromiso data))"
  by (simp add: routing_runtime_invariants_def routing_findings_def Let_def
        uniform_run [OF check_constraint_caps_uniform] check_timestamp_alone
        check_non_empty_ids_alone check_selected_matches_fallback_alone check_reason_codes_alone
        check_cost_currency_pair_alone scan_secrets_findings split: option.splits)

text \<open>Every finding is a line of the report.\<close>

lemma startswith_iff: "startswith p s = (\<exists>r. s = p @ r)"
  by (induction p s rule: startswith.induct) auto

lemma contains_iff: "contains p s = (\<exists>a b. s = a @ p @ b)"
proof (induction s)
  case Nil
  show ?case by simp
next
  case (Cons c cs)
  have "(\<exists>a b. c # cs = a @ p @ b) = ((\<exists>r. c # cs = p @ r) \<or> (\<exists>a b. cs = a @ p @ b))"
  proof
    assume "\<exists>a b. c # cs = a @ p @ b"
    then obtain a b where ab: "c # cs = a @ p @ b" by blast
    show "(\<exists>r. c # cs = p @ r) \<or> (\<exists>a b. cs = a @ p @ b)"
    proof (cases a)
      case Nil
      with ab show ?thesis by auto
    next
      case (Cons x a')
      with ab have "cs = a' @ p @ b" by simp
      then show ?thesis by blast
    qed
  next
    assume "(\<exists>r. c # cs = p @ r) \<or> (\<exists>a b. cs = a @ p @ b)"
    then show "\<exists>a b. c # cs = a @ p @ b"
    proof
      assume "\<exists>r. c # cs = p @ r"
      then obtain r where "c # cs = [] @ p @ r" by auto
      then show ?thesis by blast
    next
      assume "\<exists>a b. cs = a @ p @ b"
      then obtain a b where "c # cs = (c # a) @ p @ b" by auto
      then show ?thesis by blast
    qed
  qed
  with Cons show ?case by (simp add: startswith_iff)
qed

lemma join_holds_each:
  "e \<in> set es \<Longrightarrow> \<exists>a b. join sep (map f es) = a @ f e @ b"
proof (induction es)
  case Nil
  then show ?case by simp
next
  case (Cons x xs)
  show ?case
  proof (cases xs)
    case Nil
    with Cons.prems have "join sep (map f (x # xs)) = [] @ f e @ []" by simp
    then show ?thesis by blast
  next
    case (Cons y ys)
    show ?thesis
    proof (cases "e = x")
      case True
      with Cons have "join sep (map f (x # xs)) = [] @ f e @ (sep @ join sep (map f xs))"
        by simp
      then show ?thesis by blast
    next
      case False
      with Cons.IH Cons.prems obtain a b where "join sep (map f xs) = a @ f e @ b" by auto
      with Cons have "join sep (map f (x # xs)) = (f x @ sep @ a) @ f e @ b" by simp
      then show ?thesis by blast
    qed
  qed
qed

lemma report_holds_each:
  assumes "e \<in> set errors"
  shows "contains (''  '' @ blt @ '' '' @ e) (report header blt errors)"
proof -
  obtain a b where "join [nl] (map (\<lambda>err. ''  '' @ blt @ '' '' @ err) errors)
      = a @ (''  '' @ blt @ '' '' @ e) @ b"
    using join_holds_each [OF assms] by blast
  then have "report header blt errors = (header @ [nl] @ a) @ (''  '' @ blt @ '' '' @ e) @ b"
    by (simp add: report_def)
  then show ?thesis unfolding contains_iff by blast
qed

text \<open>
  What the four validators do with the findings of their checks. The outcome of
  \<open>runtime_invariants\<close> is decided by the findings of the document, the concatenation, in
  the order of the calls, of what each check reports when it runs alone: it returns
  normally if and only if that list is empty, otherwise it raises \<open>InvariantViolation\<close>
  with the report of the whole list, and every finding is a line of the report. For the
  cost-governor and the logging validator this holds on every input; for the health and
  the routing validator it holds on every document on which \<open>_check_checks\<close> and
  \<open>_check_constraint_caps\<close> end without a \<open>TypeError\<close>, as they do when the \<open>probe_type\<close>
  and \<open>status\<close> of every check are hashable and the two caps are numbers.
\<close>

lemma runtime_invariants_outcome:
  "cg_runtime_invariants fmt gov = raise_if_errors cg_header bullet (cg_findings fmt gov) \<and>
   logging_runtime_invariants fromiso event_dict
     = raise_if_errors logging_header bullet_logging (logging_findings fromiso event_dict) \<and>
   (raises (check_checks fromiso (dict_get health_doc ''checks'')) = None \<longrightarrow>
      health_runtime_invariants fromiso rr health_doc
        = raise_if_errors health_header bullet (health_findings fromiso rr health_doc)) \<and>
   (checks_hashable health_doc \<longrightarrow>
      raises (check_checks fromiso (dict_get health_doc ''checks'')) = None) \<and>
   (raises (check_constraint_caps (dict_get routing_doc ''constraints'')) = None \<longrightarrow>
      routing_runtime_invariants fromiso routing_doc
        = raise_if_errors routing_header bullet (routing_findings fromiso routing_doc)) \<and>
   (caps_comparable routing_doc \<longrightarrow>
      raises (check_constraint_caps (dict_get routing_doc ''constraints'')) = None) \<and>
   (raise_if_errors header blt errors = Inr () \<longleftrightarrow> errors = []) \<and>
   (errors \<noteq> [] \<longrightarrow>
      raise_if_errors header blt errors = Inl (InvariantViolation (report header blt errors))) \<and>
   (\<forall>e \<in> set errors. contains (''  '' @ blt @ '' '' @ e) (report header blt errors))"
proof (intro conjI impI ballI)
  show "cg_runtime_invariants fmt gov = raise_if_errors cg_header bullet (cg_findings fmt gov)"
    by (simp add: cg_runtime_invariants_def cg_errors_findings)
  show "logging_runtime_invariants fromiso event_dict
          = raise_if_errors logging_header bullet_logging (logging_findings fromiso event_dict)"
    by (simp add: logging_runtime_invariants_def logging_accumulates)
  show "health_runtime_invariants fromiso rr health_doc
          = raise_if_errors health_header bullet (health_findings fromiso rr health_doc)"
    if "raises (check_checks fromiso (dict_get health_doc ''checks'')) = None"
    using that by (simp add: health_accumulates)
  show "raises (check_checks fromiso (dict_get health_doc ''checks'')) = None"
    if "checks_hashable health_doc"
    using that by (rule checks_hashable_no_raise)
  show "routing_runtime_invariants fromiso routing_doc
          = raise_if_errors routing_header bullet (routing_findings fromiso routing_doc)"
    if "raises (check_constraint_caps (dict_get routing_doc ''constraints'')) = None"
    using that by (simp add: routing_accumulates)
  show "raises (check_constraint_caps (dict_get routing_doc ''constraints'')) = None"
    if "caps_comparable routing_doc"
    using that by (rule caps_comparable_no_raise)
  show "(raise_if_errors header blt errors = Inr ()) = (errors = [])"
    by (simp add: raise_if_errors_def)
  show "raise_if_errors header blt errors = Inl (InvariantViolation (report header blt errors))"
    if "errors \<noteq> []"
    using that by (simp add: raise_if_errors_def)
  show "contains (''  '' @ blt @ '' '' @ e) (report header blt errors)"
    if "e \<in> set errors" for e
    using that by (rule report_holds_each)
qed

lemma runtime_invariants_outcome_example:
  "health_runtime_invariants fromiso_test repr_test
     (health_test ''healthy'' '' '' ''unhealthy'' 0 1)
     = Inl (InvariantViolation
         (report health_header bullet
            [''service must be a non-empty string'',
             ''status must be 'unhealthy' for current checks/summary, got 'healthy'' @ [sq]]))"
proof -
  have hashable: "checks_hashable (health_test ''healthy'' '' '' ''unhealthy'' 0 1)"
    by (simp add: checks_hashable_def health_test_def health_check_test_def dict_get_def
          hashable_def)
  note inst = runtime_invariants_outcome
      [where health_doc = "health_test ''healthy'' '' '' ''unhealthy'' 0 1"
         and fromiso = fromiso_test and rr = repr_test]
  from inst [THEN conjunct2, THEN conjunct2, THEN conjunct2, THEN conjunct1] hashable
  have "raises (check_checks fromiso_test
                  (dict_get (health_test ''healthy'' '' '' ''unhealthy'' 0 1) ''checks''))
          = None"
    by (rule mp)
  with inst [THEN conjunct2, THEN conjunct2, THEN conjunct1]
  have "health_runtime_invariants fromiso_test repr_test
               (health_test ''healthy'' '' '' ''unhealthy'' 0 1)
             = raise_if_errors health_header bullet
                 (health_findings fromiso_test repr_test
                    (health_test ''healthy'' '' '' ''unhealthy'' 0 1))"
    by (rule mp)
  moreover have "health_findings fromiso_test repr_test
                   (health_test ''healthy'' '' '' ''unhealthy'' 0 1)
                 = [''service must be a non-empty string'',
                    ''status must be 'unhealthy' for current checks/summary, got 'healthy''
                      @ [sq]]"
    by (simp add: health_findings_def health_test_def health_check_test_def dict_get_def
          alone_def found_def check_timestamp_def fromiso_test_def endswith_Z_def
          check_service_name_def non_empty_str_def strip_def is_space_def check_checks_def
          in_str_set_def hashable_def ALLOWED_STATES_def digit_def str_of_def
          check_summary_and_status_def compute_counts_def count_status_def has_status_def
          counts_items_def derive_status_def py_str_def py_eq_JStr py_eq_JInt num_value_def
          is_str_def sq_def Let_def)
  ultimately show ?thesis by (simp add: raise_if_errors_def)
qed

text \<open>
  Claim C5. \<open>runtime_invariants\<close> is to raise \<open>InvariantViolation\<close> whenever a rule is
  violated, with every violation in its report. The health and the routing validator do
  not, on a document that holds a value of the wrong type where the code tests membership
  in a set, or compares the two caps, without testing the type first. On a health document
  with a blank service name whose check has a list as \<open>probe_type\<close>, the violation of the
  rule on the service name is collected, and then \<open>probe_type not in {...}\<close> raises
  \<open>TypeError\<close>, which is what \<open>runtime_invariants\<close> ends in. On a routing document with
  reason codes out of order and a string as soft cap, the violation is collected and then
  \<open>soft > hard\<close> raises \<open>TypeError\<close>. Beside them, the \<open>name\<close> of a check is tested with
  \<open>isinstance\<close>: with a list there, both violations are reported in one
  \<open>InvariantViolation\<close>.
\<close>

theorem runtime_invariants_type_error:
  "check_service_name (dict_get health_unhashable ''service'') []
     = [''service must be a non-empty string''] \<and>
   health_runtime_invariants fromiso rr health_unhashable = Inl TypeError \<and>
   check_reason_codes (dict_get routing_incomparable ''reason_codes'') []
     = [''reason_codes must be sorted for deterministic ordering''] \<and>
   routing_runtime_invariants fromiso routing_incomparable = Inl TypeError \<and>
   health_runtime_invariants fromiso_test repr_test health_unnamed
     = Inl (InvariantViolation
         (report health_header bullet
            [''service must be a non-empty string'',
             ''checks[0].name must be a non-empty string'']))"
proof (intro conjI)
  show "check_service_name (dict_get health_unhashable ''service'') []
          = [''service must be a non-empty string'']"
    by (simp add: health_unhashable_def dict_get_def check_service_name_def non_empty_str_def
          strip_def is_space_def)
  show "health_runtime_invariants fromiso rr health_unhashable = Inl TypeError"
    by (simp add: health_unhashable_def dict_get_def health_runtime_invariants_def
          check_checks_def in_str_set_def hashable_def Let_def)
  show "check_reason_codes (dict_get routing_incomparable ''reason_codes'') []
          = [''reason_codes must be sorted for deterministic ordering'']"
    by (simp add: routing_incomparable_def dict_get_def check_reason_codes_def
          non_empty_str_def strip_def is_space_def is_str_def str_of_def)
  show "routing_runtime_invariants fromiso routing_incomparable = Inl TypeError"
    by (simp add: routing_incomparable_def dict_get_def routing_runtime_invariants_def
          check_constraint_caps_def Let_def)
  show "health_runtime_invariants fromiso_test repr_test health_unnamed
          = Inl (InvariantViolation
              (report health_header bullet
                 [''service must be a non-empty string'',
                  ''checks[0].name must be a non-empty string'']))"
    by (simp add: health_unnamed_def dict_get_def health_runtime_invariants_def
          check_timestamp_def fromiso_test_def endswith_Z_def check_service_name_def
          non_empty_str_def strip_def is_space_def check_checks_def in_str_set_def
          hashable_def ALLOWED_STATES_def digit_def str_of_def is_str_def
          check_summary_and_status_def compute_counts_def count_status_def has_status_def
          counts_items_def derive_status_def py_str_def py_eq_JStr py_eq_JInt num_value_def
          raise_if_errors_def Let_def)
qed

text \<open>
  Claim C2. For every configuration with \<open>daily_hard_cap = None\<close>: unless \<open>on_hard_cap\<close>
  is NONE, \<open>runtime_invariants\<close> lists the violation of rule 2 and raises
  \<open>InvariantViolation\<close>, so it accepts the configuration only with \<open>on_hard_cap = NONE\<close>;
  and on every input the test of phase 1 is false, so the hard-cap dispatch is not reached,
  and the reason of the decision begins neither with \<open>hard_cap_exceeded\<close> nor with
  \<open>invariant_violation\<close>.
\<close>

theorem no_hard_cap_no_phase1:
  assumes "daily_hard_cap gov = None"
  shows "(on_hard_cap gov \<noteq> Hard_NONE \<longrightarrow>
            (''daily_hard_cap is null so on_hard_cap must be 'none', got '' @ [sq]
               @ OnHardCap_value (on_hard_cap gov) @ [sq]) \<in> set (cg_errors fmt gov) \<and>
            cg_runtime_invariants fmt gov
              = Inl (InvariantViolation (report cg_header bullet (cg_errors fmt gov)))) \<and>
         (cg_runtime_invariants fmt gov = Inr () \<longrightarrow> on_hard_cap gov = Hard_NONE) \<and>
         \<not> hard_cap_exceeded gov projected \<and>
         \<not> startswith ''hard_cap_exceeded''
             (reason (evaluate fmt gov estimated_cost spent_today task_id is_critical
                        queue_depth)) \<and>
         \<not> startswith ''invariant_violation''
             (reason (evaluate fmt gov estimated_cost spent_today task_id is_critical
                        queue_depth))"
proof -
  have rule2: "on_hard_cap gov \<noteq> Hard_NONE \<Longrightarrow>
      (''daily_hard_cap is null so on_hard_cap must be 'none', got '' @ [sq]
         @ OnHardCap_value (on_hard_cap gov) @ [sq]) \<in> set (cg_errors fmt gov)"
    using assms
    by (simp add: cg_errors_findings cg_findings_def alone_def cg_null_hard_none_def)
  then have raised: "on_hard_cap gov \<noteq> Hard_NONE \<Longrightarrow>
      cg_runtime_invariants fmt gov
        = Inl (InvariantViolation (report cg_header bullet (cg_errors fmt gov)))"
    by (auto simp: cg_runtime_invariants_def raise_if_errors_def)
  have phase1: "\<not> hard_cap_exceeded gov p" for p
    using assms by (simp add: hard_cap_exceeded_def)
  have reasons:
    "\<not> startswith ''hard_cap_exceeded''
        (reason (evaluate fmt gov estimated_cost spent_today task_id is_critical queue_depth))"
    "\<not> startswith ''invariant_violation''
        (reason (evaluate fmt gov estimated_cost spent_today task_id is_critical queue_depth))"
    by (simp_all add: evaluate_def Let_def phase1 soft_cap_dispatch_def
          apply_queue_overflow_def mk_Decision_def
          split: OnSoftCap.splits option.splits)
  have valid: "on_hard_cap gov = Hard_NONE" if "cg_runtime_invariants fmt gov = Inr ()"
    using raised that by (cases "on_hard_cap gov = Hard_NONE") simp_all
  show ?thesis
    using rule2 raised valid phase1 reasons by blast
qed

theorem no_hard_cap_no_phase1_witness:
  "cg_runtime_invariants str_int (gov_test\<lparr>daily_hard_cap := None\<rparr>)
     = Inl (InvariantViolation
         (report cg_header bullet
            [''daily_hard_cap is null so on_hard_cap must be 'none', got 'halt-all'' @ [sq]])) \<and>
   reason (evaluate str_int (gov_test\<lparr>daily_hard_cap := None, on_hard_cap := Hard_NONE\<rparr>)
             5 18 ''t1'' False 0) = ''soft_cap_exceeded: log-only''"
proof -
  have "cg_errors str_int (gov_test\<lparr>daily_hard_cap := None\<rparr>)
          = [''daily_hard_cap is null so on_hard_cap must be 'none', got 'halt-all'' @ [sq]]"
    by (simp add: cg_errors_findings cg_findings_def alone_def gov_test_def
          cg_soft_le_hard_def cg_null_hard_none_def cg_degrade_ladder_def cg_halt_allowlist_def
          cg_queue_policy_def CostGovernor_fields_def check_no_secrets_findings str_findings_def
          search_ignorecase_def lower_def lower_char_def opt_float_def raw_key_path_def
          sq_def)
  then show ?thesis
    using no_hard_cap_no_phase1 [of "gov_test\<lparr>daily_hard_cap := None\<rparr>" str_int]
    by (simp add: gov_test_def evaluate_def per_request_gate_def hard_cap_exceeded_def
          soft_cap_exceeded_def soft_cap_dispatch_def mk_Decision_def)
qed


lemma check_summary_and_status_findings:
  assumes "dict_get data ''checks'' = JList checks"
    and "dict_get data ''summary'' = JDict summary"
  shows "check_summary_and_status rr data errors
           = errors
             @ concat (map (\<lambda>(key, expected).
                 if num_value (dict_get summary key) \<noteq> Some (of_int expected)
                 then [''summary.'' @ key @ '' must equal computed value '' @ str_int expected
                         @ '', got '' @ py_str rr (dict_get summary key)]
                 else []) (tally checks))
             @ (if dict_get data ''status'' \<noteq> JStr (status_of_checks checks)
                then [''status must be '' @ [sq] @ status_of_checks checks @ [sq]
                        @ '' for current checks/summary, got '' @ [sq]
                        @ py_str rr (dict_get data ''status'') @ [sq]]
                else [])"
  by (simp add: check_summary_and_status_def assms Let_def check_summary_loop_findings
        counts_items_tally derive_status_spec py_eq_JStr)

text \<open>
  Claim C8. For every health document whose \<open>checks\<close> is a list and whose \<open>summary\<close> is
  an object: \<open>_check_summary_and_status\<close> reports nothing if and only if \<open>status\<close> is the
  string the specification derives from the checks (\<open>status_of_checks\<close>: unhealthy if any
  check is unhealthy, else degraded if any is degraded, else healthy if all are healthy and
  the list is not empty, else unknown) and every count of the summary equals the tally of
  the checks (with Python's \<open>==\<close>, under which \<open>1.0\<close> and \<open>True\<close> equal 1); so
  \<open>runtime_invariants\<close> accepts a document only then; and every mismatch, of the status
  or of a count, puts its violation in the list.
\<close>

theorem health_status_is_derived:
  assumes "dict_get data ''checks'' = JList checks"
    and "dict_get data ''summary'' = JDict summary"
  shows "(check_summary_and_status rr data [] = [] \<longleftrightarrow>
            dict_get data ''status'' = JStr (status_of_checks checks)
            \<and> summary_matches summary checks) \<and>
         (health_runtime_invariants fromiso rr data = Inr () \<longrightarrow>
            dict_get data ''status'' = JStr (status_of_checks checks)
            \<and> summary_matches summary checks) \<and>
         (dict_get data ''status'' \<noteq> JStr (status_of_checks checks) \<longrightarrow>
            (''status must be '' @ [sq] @ status_of_checks checks @ [sq]
               @ '' for current checks/summary, got '' @ [sq]
               @ py_str rr (dict_get data ''status'') @ [sq])
              \<in> set (check_summary_and_status rr data errors)) \<and>
         (\<forall>(key, n) \<in> set (tally checks).
            num_value (dict_get summary key) \<noteq> Some (of_int n) \<longrightarrow>
            (''summary.'' @ key @ '' must equal computed value '' @ str_int n @ '', got ''
               @ py_str rr (dict_get summary key))
              \<in> set (check_summary_and_status rr data errors))"
proof -
  note f = check_summary_and_status_findings [OF assms]
  have accepts: "(check_summary_and_status rr data [] = []) =
      (dict_get data ''status'' = JStr (status_of_checks checks)
       \<and> summary_matches summary checks)"
    by (auto simp: f summary_matches_def split: if_splits)
  have "check_summary_and_status rr data [] = []"
    if ok: "health_runtime_invariants fromiso rr data = Inr ()"
  proof -
    from ok obtain errors3 where
      "raise_if_errors health_header bullet
         (scan_secrets (JDict data) (check_summary_and_status rr data errors3) ''$'') = Inr ()"
      by (auto simp: health_runtime_invariants_def Let_def split: sum.splits)
    then have "errors3 @ alone (check_summary_and_status rr data)
                 @ scan_findings (JDict data) ''$'' = []"
      by (simp add: raise_if_errors_def scan_secrets_findings check_summary_and_status_alone
            split: if_splits)
    then show ?thesis by (simp add: alone_def)
  qed
  with accepts have valid:
    "health_runtime_invariants fromiso rr data = Inr () \<longrightarrow>
       dict_get data ''status'' = JStr (status_of_checks checks)
       \<and> summary_matches summary checks"
    by blast
  have st: "dict_get data ''status'' \<noteq> JStr (status_of_checks checks) \<longrightarrow>
      (''status must be '' @ [sq] @ status_of_checks checks @ [sq]
         @ '' for current checks/summary, got '' @ [sq]
         @ py_str rr (dict_get data ''status'') @ [sq])
        \<in> set (check_summary_and_status rr data errors)"
    by (simp add: f)
  have cnt: "\<forall>(key, n) \<in> set (tally checks).
      num_value (dict_get summary key) \<noteq> Some (of_int n) \<longrightarrow>
      (''summary.'' @ key @ '' must equal computed value '' @ str_int n @ '', got ''
         @ py_str rr (dict_get summary key))
        \<in> set (check_summary_and_status rr data errors)"
  proof (clarify)
    fix key n
    assume "(key, n) \<in> set (tally checks)"
      and "num_value (dict_get summary key) \<noteq> Some (of_int n)"
    then show "(''summary.'' @ key @ '' must equal computed value '' @ str_int n @ '', got ''
         @ py_str rr (dict_get summary key))
        \<in> set (check_summary_and_status rr data errors)"
      unfolding f by (force simp del: append_assoc)
  qed
  from accepts valid st cnt show ?thesis by blast
qed

theorem health_status_is_derived_witness:
  "status_of_checks [health_check_test ''unhealthy''] = ''unhealthy'' \<and>
   (''status must be 'unhealthy' for current checks/summary, got 'healthy'' @ [sq])
     \<in> set (check_summary_and_status repr_test
              (health_test ''healthy'' ''openclaw-runtime'' ''unhealthy'' 0 1) []) \<and>
   check_summary_and_status repr_test
     (health_test ''unhealthy'' ''openclaw-runtime'' ''unhealthy'' 0 1) [] = []"
proof -
  have st: "status_of_checks [health_check_test ''unhealthy''] = ''unhealthy''"
    by (simp add: status_of_checks_def health_check_test_def has_status_def dict_get_def
          py_eq_JStr)
  have m: "summary_matches
             [(''total'', JInt 1), (''healthy'', JInt 0), (''degraded'', JInt 0),
              (''unhealthy'', JInt 1), (''unknown'', JInt 0)]
             [health_check_test ''unhealthy'']"
    by (simp add: summary_matches_def tally_def health_check_test_def has_status_def
          dict_get_def py_eq_JStr num_value_def)
  show ?thesis
    using st m
      health_status_is_derived
        [of "health_test ''healthy'' ''openclaw-runtime'' ''unhealthy'' 0 1"
            "[health_check_test ''unhealthy'']"
            "[(''total'', JInt 1), (''healthy'', JInt 0), (''degraded'', JInt 0),
              (''unhealthy'', JInt 1), (''unknown'', JInt 0)]" repr_test fromiso_test "[]"]
      health_status_is_derived
        [of "health_test ''unhealthy'' ''openclaw-runtime'' ''unhealthy'' 0 1"
            "[health_check_test ''unhealthy'']"
            "[(''total'', JInt 1), (''healthy'', JInt 0), (''degraded'', JInt 0),
              (''unhealthy'', JInt 1), (''unknown'', JInt 0)]" repr_test fromiso_test "[]"]
    by (simp add: health_test_def dict_get_def py_str_def sq_def)
qed


lemma strs_of_codes:
  "\<forall>c \<in> set codes. non_empty_str c \<Longrightarrow> map JStr (map str_of codes) = codes"
  by (induction codes) (auto simp: non_empty_str_def str_of_def split: json.splits)

lemma no_duplicates_iff: "(length cs = length (remdups (map f cs))) = distinct (map f cs)"
  by (metis length_map length_remdups_eq remdups_id_iff_distinct)

lemma sort_id_iff: "(xs = sort xs) = sorted xs"
  by (metis sorted_sort sorted_sort_id)

lemma check_reason_codes_ok:
  "(check_reason_codes rc [] = []) =
     (\<exists>codes. rc = JList (map JStr codes) \<and> codes \<noteq> [] \<and> (\<forall>c \<in> set codes. strip c \<noteq> [])
        \<and> distinct codes \<and> sorted codes)"
proof (cases rc)
  case (JList cs)
  show ?thesis
  proof (cases "cs \<noteq> [] \<and> (\<forall>c \<in> set cs. non_empty_str c)")
    case False
    then have "check_reason_codes rc [] \<noteq> []"
      by (auto simp: JList check_reason_codes_def list_ex_iff)
    moreover have "\<not> (\<exists>codes. rc = JList (map JStr codes) \<and> codes \<noteq> []
        \<and> (\<forall>c \<in> set codes. strip c \<noteq> []) \<and> distinct codes \<and> sorted codes)"
      using False by (auto simp: JList non_empty_str_def)
    ultimately show ?thesis by blast
  next
    case True
    then have cs: "cs = map JStr (map str_of cs)" by (metis strs_of_codes)
    have inj: "\<And>codes. (cs = map JStr codes) = (codes = map str_of cs)"
      using cs by (metis (no_types, lifting) json.inject(4) list.inj_map_strong)
    have ne: "\<forall>c \<in> set (map str_of cs). strip c \<noteq> []"
      using True by (auto simp: non_empty_str_def str_of_def split: json.splits)
    have "(check_reason_codes rc [] = []) =
        (distinct (map str_of cs) \<and> sorted (map str_of cs))"
      using True
      by (auto simp: JList check_reason_codes_def list_ex_iff Let_def sort_id_iff
            no_duplicates_iff simp del: distinct_map sorted_map)
    also have "\<dots> = (\<exists>codes. rc = JList (map JStr codes) \<and> codes \<noteq> []
        \<and> (\<forall>c \<in> set codes. strip c \<noteq> []) \<and> distinct codes \<and> sorted codes)"
      using True ne by (auto simp: JList inj simp del: distinct_map sorted_map)
    finally show ?thesis .
  qed
qed (simp_all add: check_reason_codes_def)

text \<open>
  Claim C9. \<open>_check_reason_codes\<close> reports a violation unless \<open>reason_codes\<close> is a
  non-empty list of strings, none of them empty, without duplicates and in sorted order
  (the order of Python's \<open>sorted\<close> on strings: lexicographic by character code). The
  lists it accepts are exactly those whose strings are moreover not made of white space
  only. What it reports is appended to the list it is given, and \<open>runtime_invariants\<close> of
  the routing validator accepts a document only if the check reports nothing. Of the three
  lists of the specification, \<open>["Z_LAST", "A_FIRST"]\<close> and \<open>["DUP", "DUP"]\<close> are reported
  and \<open>["A_FIRST", "Z_LAST"]\<close> is not.
\<close>

theorem reason_codes_sorted_unique:
  "(check_reason_codes rc [] = [] \<longleftrightarrow>
      (\<exists>codes. rc = JList (map JStr codes) \<and> codes \<noteq> [] \<and> (\<forall>c \<in> set codes. strip c \<noteq> [])
         \<and> distinct codes \<and> sorted codes)) \<and>
   (check_reason_codes rc [] = [] \<longrightarrow>
      (\<exists>codes. rc = JList (map JStr codes) \<and> codes \<noteq> [] \<and> (\<forall>c \<in> set codes. c \<noteq> [])
         \<and> distinct codes \<and> sorted codes)) \<and>
   check_reason_codes rc errors = errors @ check_reason_codes rc [] \<and>
   (routing_runtime_invariants fromiso data = Inr () \<longrightarrow>
      check_reason_codes (dict_get data ''reason_codes'') [] = []) \<and>
   check_reason_codes (JList [JStr ''Z_LAST'', JStr ''A_FIRST'']) []
     = [''reason_codes must be sorted for deterministic ordering''] \<and>
   check_reason_codes (JList [JStr ''DUP'', JStr ''DUP'']) []
     = [''reason_codes must not contain duplicates''] \<and>
   check_reason_codes (JList [JStr ''A_FIRST'', JStr ''Z_LAST'']) [] = []"
proof -
  have strip_nonempty: "strip c \<noteq> [] \<Longrightarrow> c \<noteq> []" for c
    by (auto simp: strip_def)
  have claim: "check_reason_codes rc [] = [] \<longrightarrow>
      (\<exists>codes. rc = JList (map JStr codes) \<and> codes \<noteq> [] \<and> (\<forall>c \<in> set codes. c \<noteq> [])
         \<and> distinct codes \<and> sorted codes)"
    unfolding check_reason_codes_ok using strip_nonempty by blast
  have app: "check_reason_codes rc errors = errors @ check_reason_codes rc []"
    using check_reason_codes_alone [of rc errors] by (simp add: alone_def)
  have valid: "check_reason_codes (dict_get data ''reason_codes'') [] = []"
    if ok: "routing_runtime_invariants fromiso data = Inr ()"
  proof -
    from ok obtain errors6 where
      "check_constraint_caps (dict_get data ''constraints'')
         (check_cost_currency_pair data
            (check_reason_codes (dict_get data ''reason_codes'')
               (check_selected_matches_fallback data
                  (check_non_empty_ids [''decision_id'', ''task_id'', ''trace_id''] data
                     (check_timestamp fromiso (dict_get data ''timestamp'') ''timestamp''
                        []))))) = Inr errors6"
      and "raise_if_errors routing_header bullet (scan_secrets (JDict data) errors6 ''$'')
             = Inr ()"
      by (auto simp: routing_runtime_invariants_def Let_def split: sum.splits)
    then have "errors6 = []"
      by (simp add: raise_if_errors_def scan_secrets_findings split: if_splits)
    moreover have "alone (check_reason_codes (dict_get data ''reason_codes'')) \<noteq> []
        \<Longrightarrow> errors6 \<noteq> []"
      using \<open>check_constraint_caps _ _ = Inr errors6\<close>
      by (auto simp: check_constraint_caps_def Let_def check_cost_currency_pair_alone
            check_reason_codes_alone split: json.splits if_splits sum.splits)
    ultimately show ?thesis by (auto simp: alone_def)
  qed
  have ex: "check_reason_codes (JList [JStr ''Z_LAST'', JStr ''A_FIRST'']) []
              = [''reason_codes must be sorted for deterministic ordering'']"
    "check_reason_codes (JList [JStr ''DUP'', JStr ''DUP'']) []
       = [''reason_codes must not contain duplicates'']"
    "check_reason_codes (JList [JStr ''A_FIRST'', JStr ''Z_LAST'']) [] = []"
    by (simp_all add: check_reason_codes_def non_empty_str_def strip_def is_space_def
          str_of_def)
  from check_reason_codes_ok claim app valid ex show ?thesis by blast
qed


theorem reason_codes_sorted_unique_witness:
  "check_reason_codes (JList [JStr ''COST_SOFT_CAP'', JStr ''LATENCY_TARGET'']) [] = [] \<and>
   check_reason_codes (JList [JStr ''LATENCY_TARGET'', JStr ''COST_SOFT_CAP'']) [] \<noteq> []"
proof -
  have ok: "\<exists>codes. JList [JStr ''COST_SOFT_CAP'', JStr ''LATENCY_TARGET''] = JList (map JStr codes)
      \<and> codes \<noteq> [] \<and> (\<forall>c \<in> set codes. strip c \<noteq> []) \<and> distinct codes \<and> sorted codes"
    by (rule exI [of _ "[''COST_SOFT_CAP'', ''LATENCY_TARGET'']"])
       (simp add: strip_def is_space_def)
  have bad: "\<not> (\<exists>codes.
      JList [JStr ''LATENCY_TARGET'', JStr ''COST_SOFT_CAP''] = JList (map JStr codes)
      \<and> codes \<noteq> [] \<and> (\<forall>c \<in> set codes. strip c \<noteq> []) \<and> distinct codes \<and> sorted codes)"
  proof
    assume "\<exists>codes.
      JList [JStr ''LATENCY_TARGET'', JStr ''COST_SOFT_CAP''] = JList (map JStr codes)
      \<and> codes \<noteq> [] \<and> (\<forall>c \<in> set codes. strip c \<noteq> []) \<and> distinct codes \<and> sorted codes"
    then obtain codes where
      a: "JList [JStr ''LATENCY_TARGET'', JStr ''COST_SOFT_CAP''] = JList (map JStr codes)"
      and b: "sorted codes"
      by (elim exE conjE)
    from a have "codes = [''LATENCY_TARGET'', ''COST_SOFT_CAP'']"
      by (cases codes; cases "tl codes") auto
    with b show False by simp
  qed
  have good: "check_reason_codes (JList [JStr ''COST_SOFT_CAP'', JStr ''LATENCY_TARGET'']) [] = []"
    using ok
    by (rule iffD2
          [OF reason_codes_sorted_unique
                [of "JList [JStr ''COST_SOFT_CAP'', JStr ''LATENCY_TARGET'']", THEN conjunct1]])
  have "check_reason_codes (JList [JStr ''LATENCY_TARGET'', JStr ''COST_SOFT_CAP'']) [] \<noteq> []"
  proof
    assume "check_reason_codes (JList [JStr ''LATENCY_TARGET'', JStr ''COST_SOFT_CAP'']) [] = []"
    then have "\<exists>codes.
      JList [JStr ''LATENCY_TARGET'', JStr ''COST_SOFT_CAP''] = JList (map JStr codes)
      \<and> codes \<noteq> [] \<and> (\<forall>c \<in> set codes. strip c \<noteq> []) \<and> distinct codes \<and> sorted codes"
      by (rule iffD1
            [OF reason_codes_sorted_unique
                  [of "JList [JStr ''LATENCY_TARGET'', JStr ''COST_SOFT_CAP'']", THEN conjunct1]])
    with bad show False by (rule notE)
  qed
  with good show ?thesis by (rule conjI)
qed

end
